theory Spec2Isabelle
  imports Complex_Main
begin

section \<open>Image Walker: physics and procedural level engine\<close>

text \<open>
  A shallow embedding of \<^verbatim>\<open>imagewalkerv1.py\<close>: the seeded level generator
  \<^verbatim>\<open>generate_level_by_index\<close>, the persistence helper \<^verbatim>\<open>load_coins_data\<close>, and
  the per-frame update of \<^verbatim>\<open>ImageWalkerMode\<close> and \<^verbatim>\<open>LevelPlayMode\<close>.

  Conventions of the embedding.
  \<^item> Python floats are idealised as exact reals (type \<open>real\<close>); Python ints that only
    ever meet floats (screen size, body size) are embedded in \<open>real\<close> as well. Rounding of
    IEEE doubles is therefore outside the model.
  \<^item> Dictionaries with a fixed set of keys are records; the decorative \<^verbatim>\<open>photo\<close> entry
    of a platform is dropped (it is only read by the renderer).
  \<^item> The pseudo-random generator of the Python library is not part of the repository. Its
    operations are parameters of the model (record \<open>rng_ops\<close>), and a generator state is
    passed explicitly. The process-global generator used by the endless mode is the field
    \<open>rng\<close> of the session state.
  \<^item> \<^verbatim>\<open>time.time()\<close> is an input: each reading of the clock is an argument.
\<close>

subsection \<open>The random generator as a parameter\<close>

record 'g rng_ops =
  Random :: "int \<Rightarrow> 'g"  \<comment> \<open>\<^verbatim>\<open>random.Random(seed)\<close>: a fresh generator from a seed\<close>
  randint :: "int \<Rightarrow> int \<Rightarrow> 'g \<Rightarrow> int \<times> 'g"
  random :: "'g \<Rightarrow> real \<times> 'g"
  uniform :: "real \<Rightarrow> real \<Rightarrow> 'g \<Rightarrow> real \<times> 'g"
  choice_int :: "int list \<Rightarrow> 'g \<Rightarrow> int \<times> 'g"
  choices_str :: "string list \<Rightarrow> real list \<Rightarrow> 'g \<Rightarrow> string \<times> 'g"

text \<open>
  The one fact about the library that the generator's loop relies on:
  \<^verbatim>\<open>randint(a, b)\<close> returns a value in \<open>[a, b]\<close>.
\<close>

definition randint_in_range :: "'g rng_ops \<Rightarrow> bool" where
  "randint_in_range R \<longleftrightarrow>
     (\<forall>a b g. a \<le> b \<longrightarrow> a \<le> fst (randint R a b g) \<and> fst (randint R a b g) \<le> b)"

text \<open>
  A small concrete generator (a linear congruential step on a natural number), used to run
  the model on concrete inputs. It stands in for the Mersenne Twister of the library.
\<close>

definition lcg_next :: "nat \<Rightarrow> nat" where
  "lcg_next g = (g * 75 + 74) mod 65537"

definition lcg_ops :: "nat rng_ops" where
  "lcg_ops = \<lparr>
     Random = (\<lambda>seed. nat (\<bar>seed\<bar>) mod 65537),
     randint = (\<lambda>a b g. (a + int (g mod nat (b - a + 1)), lcg_next g)),
     random = (\<lambda>g. (real g / 65537, lcg_next g)),
     uniform = (\<lambda>a b g. (a + (b - a) * (real g / 65537), lcg_next g)),
     choice_int = (\<lambda>xs g. (if xs = [] then 0 else xs ! (g mod length xs), lcg_next g)),
     choices_str = (\<lambda>xs ws g. (if xs = [] then [] else xs ! (g mod length xs), lcg_next g)) \<rparr>"

subsection \<open>Seeded level generation\<close>

text \<open>An entry of a level's \<^verbatim>\<open>platforms\<close> list: a rectangle, spike-flagged or not.\<close>

record lplat =
  l_x :: real
  l_y :: real
  l_w :: real
  l_h :: real
  l_spikes :: bool

record finish_rec =
  f_x :: real
  f_y :: real
  f_size :: int

record level =
  lv_platforms :: "lplat list"
  lv_finish :: finish_rec
  lv_width :: int
  lv_ground_y :: int
  lv_seed :: int

text \<open>
  The \<^verbatim>\<open>while x < width - 200\<close> loop of \<^verbatim>\<open>generate_level_by_index\<close>. Whether it
  stops depends on what the generator returns, so it is a partial function: \<open>None\<close> is a
  loop that never ends.
\<close>

partial_function (option) gen_loop ::
  "'g rng_ops \<Rightarrow> int \<Rightarrow> int \<Rightarrow> int \<Rightarrow> 'g \<Rightarrow> lplat list \<Rightarrow> lplat list option"
where
  "gen_loop R width ground_y x rnd platforms =
     (if x < width - 200 then
        (let (w, rnd1) = randint R 120 320 rnd;
             (gap, rnd2) = randint R 40 160 rnd1;
             (dy, rnd3) = randint R (-120) 120 rnd2;
             py = ground_y + dy;
             platforms1 = platforms @
               [\<lparr>l_x = real_of_int x, l_y = real_of_int py, l_w = real_of_int w, l_h = 48,
                 l_spikes = False\<rparr>];
             (r, rnd4) = random R rnd3
         in if r < 0.22 then
              (let (u, rnd5) = uniform R (0.2 * real_of_int w) (0.8 * real_of_int w) rnd4;
                   sx = real_of_int x + u;
                   (sw, rnd6) = randint R 40 80 rnd5;
                   platforms2 = platforms1 @
                     [\<lparr>l_x = sx, l_y = real_of_int py - 20, l_w = real_of_int sw, l_h = 20,
                       l_spikes = True\<rparr>]
               in gen_loop R width ground_y (x + (w + gap)) rnd6 platforms2)
            else gen_loop R width ground_y (x + (w + gap)) rnd4 platforms1)
      else Some platforms)"

text \<open>
  \<^verbatim>\<open>generate_level_by_index(idx, width, ground_y)\<close>. The argument \<open>g\<close> is the state of
  the process-global generator at the time of the call; the function creates its own
  generator from \<open>idx + 12345\<close> and hands \<open>g\<close> back untouched.
\<close>

definition generate_level_by_index ::
  "'g rng_ops \<Rightarrow> int \<Rightarrow> int \<Rightarrow> int \<Rightarrow> 'g \<Rightarrow> (level \<times> 'g) option"
where
  "generate_level_by_index R idx width ground_y g =
     (let rnd = Random R (idx + 12345);
          x = 0;
          platforms = [\<lparr>l_x = real_of_int x, l_y = real_of_int ground_y, l_w = 300, l_h = 40,
                        l_spikes = False\<rparr>];
          x = x + 320
      in case gen_loop R width ground_y x rnd platforms of
           None \<Rightarrow> None
         | Some platforms' \<Rightarrow>
             (let finish_x = width - 80; finish_y = ground_y - 80
              in Some (\<lparr>lv_platforms = platforms',
                         lv_finish = \<lparr>f_x = real_of_int finish_x, f_y = real_of_int finish_y,
                                       f_size = 34\<rparr>,
                         lv_width = width, lv_ground_y = ground_y, lv_seed = idx\<rparr>, g)))"

subsection \<open>Persistence: loading the collectible state\<close>

text \<open>
  Exceptions are values. \<open>SystemExit\<close> is raised by \<^verbatim>\<open>sys.exit()\<close> and is the only
  one below that is not a subclass of \<^verbatim>\<open>Exception\<close>.
\<close>

datatype exn = OSError | JSONDecodeError | AttributeError | TypeError | ValueError
  | OverflowError | SystemExit

definition is_Exception :: "exn \<Rightarrow> bool" where
  "is_Exception e \<longleftrightarrow> e \<noteq> SystemExit"

text \<open>What \<^verbatim>\<open>json.load\<close> returns. An object keeps its members in file order.\<close>

datatype json = JNull | JBool bool | JInt int | JFloat real | JStr string
  | JArr "json list" | JObj "(string \<times> json) list"

text \<open>
  The save file as \<^verbatim>\<open>load_coins_data\<close> meets it: absent (\<^verbatim>\<open>os.path.exists\<close> is
  false), present but \<^verbatim>\<open>open\<close> raises, readable but not JSON (\<^verbatim>\<open>json.load\<close> raises),
  or a JSON document.
\<close>

datatype coin_file = NoFile | OpenFails | NotJson | Json json

text \<open>\<^verbatim>\<open>dict.get(key, default)\<close>; of a repeated member the last one counts.\<close>

definition dict_get :: "(string \<times> json) list \<Rightarrow> string \<Rightarrow> json \<Rightarrow> json" where
  "dict_get kvs k d = (case map_of (rev kvs) k of None \<Rightarrow> d | Some v \<Rightarrow> v)"

text \<open>
  \<^verbatim>\<open>float(v)\<close> on a decoded JSON value. How a string reads as a number is the
  library's business and a parameter here (\<open>None\<close>: \<^verbatim>\<open>ValueError\<close>). An integer too large
  for a double raises \<^verbatim>\<open>OverflowError\<close>.
\<close>

definition py_float :: "(string \<Rightarrow> real option) \<Rightarrow> json \<Rightarrow> exn + real" where
  "py_float str_float v =
     (case v of
        JInt i \<Rightarrow> (if \<bar>i\<bar> \<ge> 2 ^ 1024 - 2 ^ 970 then Inl OverflowError else Inr (real_of_int i))
      | JFloat r \<Rightarrow> Inr r
      | JBool b \<Rightarrow> Inr (if b then 1 else 0)
      | JStr s \<Rightarrow> (case str_float s of None \<Rightarrow> Inl ValueError | Some r \<Rightarrow> Inr r)
      | JNull \<Rightarrow> Inl TypeError
      | JArr xs \<Rightarrow> Inl TypeError
      | JObj kvs \<Rightarrow> Inl TypeError)"

record coins_data =
  cd_coins :: json
  cd_buff_end_time :: real

definition default_coins_data :: coins_data where
  "default_coins_data = \<lparr>cd_coins = JArr [], cd_buff_end_time = 0\<rparr>"

text \<open>
  The body of the \<^verbatim>\<open>try\<close>: \<open>Inl\<close> an exception raised, \<open>Inr None\<close> the body fell
  through without returning, \<open>Inr (Some d)\<close> it returned \<open>d\<close>.
\<close>

definition load_coins_try :: "(string \<Rightarrow> real option) \<Rightarrow> coin_file \<Rightarrow> exn + coins_data option"
where
  "load_coins_try str_float file =
     (case file of
        NoFile \<Rightarrow> Inr None
      | OpenFails \<Rightarrow> Inl OSError
      | NotJson \<Rightarrow> Inl JSONDecodeError
      | Json data \<Rightarrow>
          (case data of
             JObj kvs \<Rightarrow>
               (let cs = dict_get kvs ''coins'' (JArr [])
                in case py_float str_float (dict_get kvs ''buff_end_time'' (JFloat 0)) of
                     Inl e \<Rightarrow> Inl e
                   | Inr b \<Rightarrow> Inr (Some \<lparr>cd_coins = cs, cd_buff_end_time = b\<rparr>))
           | _ \<Rightarrow> Inl AttributeError))"

text \<open>\<^verbatim>\<open>load_coins_data\<close>: \<^verbatim>\<open>except Exception: pass\<close>, then the default.\<close>

definition load_coins_data :: "(string \<Rightarrow> real option) \<Rightarrow> coin_file \<Rightarrow> exn + coins_data" where
  "load_coins_data str_float file =
     (case load_coins_try str_float file of
        Inr (Some d) \<Rightarrow> Inr d
      | Inr None \<Rightarrow> Inr default_coins_data
      | Inl e \<Rightarrow> (if is_Exception e then Inr default_coins_data else Inl e))"

subsection \<open>Entities and the session state\<close>

text \<open>
  Platforms, spikes and springs are dictionaries with keys \<^verbatim>\<open>x, y, w, h\<close>; a mover has
  \<^verbatim>\<open>vx, home, range\<close> besides; an orb is a circle with a type string; a coin is a circle
  with an id and a collected flag.
\<close>

record rect =
  r_x :: real
  r_y :: real
  r_w :: real
  r_h :: real

record mover =
  m_x :: real
  m_y :: real
  m_w :: real
  m_h :: real
  m_vx :: real
  m_home :: real
  m_range :: real

record orb =
  o_x :: real
  o_y :: real
  o_r :: real
  o_type :: string

record coin =
  c_id :: int
  c_x :: real
  c_y :: real
  c_r :: real
  c_collected :: bool

definition mover_rect :: "mover \<Rightarrow> rect" where
  "mover_rect m = \<lparr>r_x = m_x m, r_y = m_y m, r_w = m_w m, r_h = m_h m\<rparr>"

text \<open>
  The attributes of an \<^verbatim>\<open>ImageWalkerMode\<close> object that the update reads or writes, and
  three pieces of process state it shares: the class attribute \<^verbatim>\<open>COIN_ID_COUNTER\<close>, the
  state \<open>rng\<close> of the global generator of module \<^verbatim>\<open>random\<close>, and \<open>saved\<close>, the last
  data handed to \<^verbatim>\<open>save_coins_data\<close> (the write itself is outside the model).
\<close>

record 'g game =
  w :: real
  h :: real
  gravity :: real
  move_accel :: real
  max_speed :: real
  jump_speed :: real
  friction_ground :: real
  friction_air :: real
  kill_y :: real
  pw :: real
  ph :: real
  px :: real
  py :: real
  vx :: real
  vy :: real
  on_ground :: bool
  dead :: bool
  platforms :: "rect list"
  movers :: "mover list"
  spikes :: "rect list"
  orbs :: "orb list"
  springs :: "rect list"
  hold_left :: bool
  hold_right :: bool
  want_jump :: bool
  time_alive :: real
  score :: int
  cam_x :: real
  cam_y :: real
  level_extent_x :: real
  ground_y :: real
  sidescroller :: bool
  scroll_speed :: real
  left_wall_kill :: bool
  coins :: "coin list"
  buff_end_time :: real
  msg :: "string option"
  msg_timer :: real
  running :: bool
  COIN_ID_COUNTER :: int
  rng :: 'g
  saved :: "(coin list \<times> real) option"

text \<open>
  The image library of the asset manager, as far as level building reads it: the number of
  entries of \<^verbatim>\<open>lib_surfaces\<close> and, for an index and a target width, the size of the
  surface that \<^verbatim>\<open>get_lib_photo\<close> returns (\<open>None\<close> when it returns none).
\<close>

record assets =
  lib_n :: nat
  get_lib_photo :: "int \<Rightarrow> real \<Rightarrow> (real \<times> real) option"

text \<open>
  The modal screens (\<^verbatim>\<open>_game_over\<close>, \<^verbatim>\<open>_level_complete\<close>) wait for the player: a key
  or click dismisses the screen, closing the window ends the process.
\<close>

datatype screen_reply = Dismiss | Quit

subsection \<open>Constants and utilities\<close>

definition COIN_CHUNK_SPAWN_PROB :: real where "COIN_CHUNK_SPAWN_PROB = 0.06"
definition SPRING_CHUNK_SPAWN_PROB :: real where "SPRING_CHUNK_SPAWN_PROB = 0.015"
definition SPRING_BOOST :: real where "SPRING_BOOST = - 760"
definition BUFF_DURATION_SECONDS :: real where "BUFF_DURATION_SECONDS = 60"

definition clamp :: "real \<Rightarrow> real \<Rightarrow> real \<Rightarrow> real" where
  "clamp v a b = max a (min b v)"

text \<open>Python's \<^verbatim>\<open>int(x)\<close> on a float: truncation toward zero.\<close>

definition py_int :: "real \<Rightarrow> int" where
  "py_int v = (if v \<ge> 0 then \<lfloor>v\<rfloor> else \<lceil>v\<rceil>)"

definition intersect ::
  "real \<Rightarrow> real \<Rightarrow> real \<Rightarrow> real \<Rightarrow> real \<Rightarrow> real \<Rightarrow> real \<Rightarrow> real \<Rightarrow> bool" where
  "intersect ax ay aw ah bx by bw bh \<longleftrightarrow>
     ax < bx + bw \<and> ax + aw > bx \<and> ay < by + bh \<and> ay + ah > by"

definition circle_rect_overlap ::
  "real \<Rightarrow> real \<Rightarrow> real \<Rightarrow> real \<Rightarrow> real \<Rightarrow> real \<Rightarrow> real \<Rightarrow> bool" where
  "circle_rect_overlap ccx ccy r rx ry rw rh =
     (let closest_x = max rx (min ccx (rx + rw));
          closest_y = max ry (min ccy (ry + rh));
          dx = ccx - closest_x; dy = ccy - closest_y
      in dx * dx + dy * dy \<le> r * r)"

text \<open>The body against a rectangle, as every call of \<^verbatim>\<open>_intersect\<close> in the update has it.\<close>

definition body_hits :: "'g game \<Rightarrow> rect \<Rightarrow> bool" where
  "body_hits s pl = intersect (px s) (py s) (pw s) (ph s) (r_x pl) (r_y pl) (r_w pl) (r_h pl)"

subsection \<open>Saving, stopping, game over\<close>

definition save_coins_state :: "'g game \<Rightarrow> 'g game" where
  "save_coins_state s = s\<lparr>saved := Some (coins s, buff_end_time s)\<rparr>"

definition stop :: "'g game \<Rightarrow> 'g game" where
  "stop s = (save_coins_state s)\<lparr>running := False\<rparr>"

text \<open>
  \<^verbatim>\<open>_game_over\<close>: nothing when already dead; otherwise the flag is set, the coins are
  saved and the screen is shown. Dismissed, it stops the mode and returns to the caller,
  which goes on with the rest of the update; closed, \<^verbatim>\<open>sys.exit()\<close> is raised.
\<close>

definition game_over :: "screen_reply \<Rightarrow> string \<Rightarrow> 'g game \<Rightarrow> exn + 'g game" where
  "game_over ui reason s =
     (if dead s then Inr s
      else (let s1 = save_coins_state (s\<lparr>dead := True\<rparr>)
            in case ui of Quit \<Rightarrow> Inl SystemExit | Dismiss \<Rightarrow> Inr (stop s1)))"

subsection \<open>Generating coins, springs and level chunks\<close>

text \<open>The loop of \<^verbatim>\<open>_generate_coin\<close>: is some uncollected coin closer than 64?\<close>

fun coin_too_close :: "real \<Rightarrow> real \<Rightarrow> coin list \<Rightarrow> bool" where
  "coin_too_close x y [] = False"
| "coin_too_close x y (c # cs) =
     (if c_collected c then coin_too_close x y cs
      else (let dx = c_x c - x; dy = c_y c - y
            in if dx * dx + dy * dy < 64 * 64 then True else coin_too_close x y cs))"

definition generate_coin :: "real \<Rightarrow> real \<Rightarrow> 'g game \<Rightarrow> coin option \<times> 'g game" where
  "generate_coin x y s =
     (if coin_too_close x y (coins s) then (None, s)
      else (let cid = COIN_ID_COUNTER s;
                s1 = s\<lparr>COIN_ID_COUNTER := COIN_ID_COUNTER s + 1\<rparr>;
                c = \<lparr>c_id = cid, c_x = x, c_y = y, c_r = 10, c_collected = False\<rparr>;
                s2 = s1\<lparr>coins := coins s1 @ [c]\<rparr>
            in (Some c, save_coins_state s2)))"

fun spring_too_close :: "real \<Rightarrow> rect list \<Rightarrow> bool" where
  "spring_too_close sx [] = False"
| "spring_too_close sx (sp # sps) =
     (if \<bar>r_x sp - sx\<bar> < 80 then True else spring_too_close sx sps)"

definition generate_spring :: "real \<Rightarrow> 'g game \<Rightarrow> rect option \<times> 'g game" where
  "generate_spring x s =
     (let sx = x; sy = ground_y s - 12
      in if spring_too_close sx (springs s) then (None, s)
         else (let sp = \<lparr>r_x = sx, r_y = sy, r_w = 48, r_h = 12\<rparr>
               in (Some sp, s\<lparr>springs := springs s @ [sp]\<rparr>)))"

definition new_platform ::
  "assets \<Rightarrow> real \<Rightarrow> real \<Rightarrow> real \<Rightarrow> real option \<Rightarrow> int option \<Rightarrow> rect" where
  "new_platform A x y wd ht img_idx =
     (let photo = (case img_idx of
                     None \<Rightarrow> None
                   | Some i \<Rightarrow> if 0 \<le> i \<and> i < int (lib_n A) then get_lib_photo A i wd else None);
          (wd1, ht1) = (case photo of None \<Rightarrow> (wd, ht) | Some (pw', ph') \<Rightarrow> (pw', Some ph'));
          ht2 = (case ht1 of None \<Rightarrow> 48 | Some v \<Rightarrow> v)
      in \<lparr>r_x = x, r_y = y, r_w = wd1, r_h = ht2\<rparr>)"

definition add_platform ::
  "assets \<Rightarrow> real \<Rightarrow> real \<Rightarrow> real \<Rightarrow> real option \<Rightarrow> int option \<Rightarrow> 'g game \<Rightarrow> 'g game" where
  "add_platform A x y wd ht img_idx s =
     s\<lparr>platforms := platforms s @ [new_platform A x y wd ht img_idx]\<rparr>"

definition add_mover ::
  "real \<Rightarrow> real \<Rightarrow> real \<Rightarrow> real \<Rightarrow> real \<Rightarrow> real \<Rightarrow> 'g game \<Rightarrow> 'g game" where
  "add_mover x y wd ht mvx move_range s =
     s\<lparr>movers := movers s @
        [\<lparr>m_x = x, m_y = y, m_w = wd, m_h = ht, m_vx = mvx, m_home = x, m_range = move_range\<rparr>]\<rparr>"

definition add_spikes :: "real \<Rightarrow> real \<Rightarrow> real \<Rightarrow> real \<Rightarrow> 'g game \<Rightarrow> 'g game" where
  "add_spikes x y wd ht s = s\<lparr>spikes := spikes s @ [\<lparr>r_x = x, r_y = y, r_w = wd, r_h = ht\<rparr>]\<rparr>"

definition add_orb :: "real \<Rightarrow> real \<Rightarrow> string \<Rightarrow> 'g game \<Rightarrow> 'g game" where
  "add_orb x y typ s =
     (let r = (if typ = ''small'' then 10 else if typ = ''normal'' then 12
               else if typ = ''high'' then 14 else 12)
      in s\<lparr>orbs := orbs s @ [\<lparr>o_x = x, o_y = y, o_r = r, o_type = typ\<rparr>]\<rparr>)"

text \<open>
  \<^verbatim>\<open>_add_level_chunk\<close>, split at its five rolls. Every draw is taken from the global
  generator \<open>rng\<close>, in the order of the source. \<open>ext\<close> is \<^verbatim>\<open>level_extent_x\<close>, which the
  chunk advances only at its end.
\<close>

definition chunk_orb :: "'g rng_ops \<Rightarrow> real \<Rightarrow> real \<Rightarrow> 'g game \<Rightarrow> 'g game" where
  "chunk_orb R wd y s =
     (let (r, g1) = random R (rng s)
      in if r < 0.6 then
           (let (u, g2) = uniform R (wd * 0.3) (wd * 0.7) g1;
                ox = level_extent_x s + u;
                (v, g3) = uniform R 80 160 g2;
                oy = y - v;
                (typ, g4) = choices_str R [''small'', ''normal'', ''high''] [0.35, 0.45, 0.20] g3
            in add_orb ox oy typ (s\<lparr>rng := g4\<rparr>))
         else s\<lparr>rng := g1\<rparr>)"

definition chunk_mover :: "'g rng_ops \<Rightarrow> real \<Rightarrow> real \<Rightarrow> 'g game \<Rightarrow> 'g game" where
  "chunk_mover R wd y s =
     (let (r, g1) = random R (rng s)
      in if r < 0.35 then
           (let (mv_w, g2) = randint R 80 140 g1;
                (u, g3) = uniform R (wd * 0.2) (wd * 0.8 - real_of_int mv_w) g2;
                mv_x = level_extent_x s + u;
                (d, g4) = randint R 60 140 g3;
                mv_y = y - real_of_int d;
                (mv_vx, g5) = choice_int R [-120, 120] g4;
                (mv_range, g6) = randint R 100 220 g5
            in add_mover mv_x mv_y (real_of_int mv_w) 20 (real_of_int mv_vx)
                 (real_of_int mv_range) (s\<lparr>rng := g6\<rparr>))
         else s\<lparr>rng := g1\<rparr>)"

definition chunk_spikes :: "'g rng_ops \<Rightarrow> real \<Rightarrow> real \<Rightarrow> 'g game \<Rightarrow> 'g game" where
  "chunk_spikes R wd y s =
     (let (r, g1) = random R (rng s)
      in if r < 0.22 then add_spikes (level_extent_x s + wd * 0.25) (y - 12) 64 16 (s\<lparr>rng := g1\<rparr>)
         else s\<lparr>rng := g1\<rparr>)"

definition chunk_coin :: "'g rng_ops \<Rightarrow> real \<Rightarrow> real \<Rightarrow> 'g game \<Rightarrow> 'g game" where
  "chunk_coin R wd y s =
     (let (r, g1) = random R (rng s)
      in if r < COIN_CHUNK_SPAWN_PROB then
           (let (u, g2) = uniform R (0.2 * wd) (0.8 * wd) g1;
                ccx = level_extent_x s + u;
                (v, g3) = uniform R 40 120 g2;
                ccy = y - v
            in snd (generate_coin ccx ccy (s\<lparr>rng := g3\<rparr>)))
         else s\<lparr>rng := g1\<rparr>)"

definition chunk_spring :: "'g rng_ops \<Rightarrow> real \<Rightarrow> 'g game \<Rightarrow> 'g game" where
  "chunk_spring R wd s =
     (let (r, g1) = random R (rng s)
      in if r < SPRING_CHUNK_SPAWN_PROB then
           (let (u, g2) = uniform R (0.2 * wd) (0.8 * wd) g1;
                sx = level_extent_x s + u
            in snd (generate_spring sx (s\<lparr>rng := g2\<rparr>)))
         else s\<lparr>rng := g1\<rparr>)"

definition add_level_chunk :: "'g rng_ops \<Rightarrow> assets \<Rightarrow> 'g game \<Rightarrow> 'g game" where
  "add_level_chunk R A s =
     (let (wd, g1) = randint R 180 320 (rng s);
          (gap, g2) = randint R 80 200 g1;
          (dy, g3) = randint R (-140) 140 g2;
          y = ground_y s + real_of_int dy;
          idx = (if lib_n A > 0 then Some (int (length (platforms s) mod lib_n A)) else None);
          s1 = add_platform A (level_extent_x s) y (real_of_int wd) None idx (s\<lparr>rng := g3\<rparr>);
          s2 = chunk_orb R (real_of_int wd) y s1;
          s3 = chunk_mover R (real_of_int wd) y s2;
          s4 = chunk_spikes R (real_of_int wd) y s3;
          s5 = chunk_coin R (real_of_int wd) y s4;
          s6 = chunk_spring R (real_of_int wd) s5
      in s6\<lparr>level_extent_x := level_extent_x s6 + real_of_int (wd + gap)\<rparr>)"

subsection \<open>The update of one frame, step by step\<close>

text \<open>Input acceleration, friction, speed clamp and gravity (the first block of \<^verbatim>\<open>_update\<close>).\<close>

definition step_velocity :: "real \<Rightarrow> 'g game \<Rightarrow> 'g game" where
  "step_velocity dt s =
     (let accel = (if hold_left s then - move_accel s else 0)
                + (if hold_right s then move_accel s else 0);
          vx1 = vx s + accel * dt;
          fr = (if on_ground s then friction_ground s else friction_air s);
          vx2 = (if accel = 0 then
                   (if vx1 > 0 then max 0 (vx1 - fr * dt)
                    else if vx1 < 0 then min 0 (vx1 + fr * dt) else vx1)
                 else vx1);
          vx3 = clamp vx2 (- max_speed s) (max_speed s)
      in s\<lparr>vx := vx3, vy := vy s + gravity s * dt\<rparr>)"

definition orb_touches :: "'g game \<Rightarrow> orb \<Rightarrow> bool" where
  "orb_touches s ob =
     circle_rect_overlap (o_x ob) (o_y ob) (o_r ob) (px s) (py s) (pw s) (ph s)"

definition orbs_touching_player :: "'g game \<Rightarrow> string set" where
  "orbs_touching_player s = set (map o_type (filter (orb_touches s) (orbs s)))"

definition jump_mult :: "string set \<Rightarrow> real" where
  "jump_mult touched_types =
     (let touching_orb = (touched_types \<noteq> {})
      in if touching_orb then
           (if ''high'' \<in> touched_types then 1.35
            else if ''normal'' \<in> touched_types then 1.0
            else if ''small'' \<in> touched_types then 0.6 else 1.0)
         else 1.0)"

definition step_jump :: "'g game \<Rightarrow> 'g game" where
  "step_jump s =
     (let touched_types = orbs_touching_player s;
          touching_orb = (touched_types \<noteq> {});
          mult = jump_mult touched_types;
          s1 = (if want_jump s \<and> (on_ground s \<or> touching_orb)
                then s\<lparr>vy := - jump_speed s * mult\<rparr> else s)
      in s1\<lparr>want_jump := False\<rparr>)"

definition advance_mover :: "real \<Rightarrow> mover \<Rightarrow> mover" where
  "advance_mover dt m =
     (let m1 = m\<lparr>m_x := m_x m + m_vx m * dt\<rparr>
      in if \<bar>m_x m1 - m_home m1\<bar> > m_range m1 then m1\<lparr>m_vx := - m_vx m1\<rparr> else m1)"

definition step_movers :: "real \<Rightarrow> 'g game \<Rightarrow> 'g game" where
  "step_movers dt s = s\<lparr>movers := map (advance_mover dt) (movers s)\<rparr>"

text \<open>
  \<^verbatim>\<open>_resolve_collisions(axis)\<close>: one pass over \<^verbatim>\<open>platforms + movers\<close>; \<open>resolve_one\<close>
  is the body of the loop.
\<close>

definition resolve_one :: "string \<Rightarrow> rect \<Rightarrow> 'g game \<Rightarrow> 'g game" where
  "resolve_one axis pl s =
     (if \<not> body_hits s pl then s
      else if axis = ''x'' then
        (let s1 = (if vx s > 0 then s\<lparr>px := r_x pl - pw s\<rparr>
                   else if vx s < 0 then s\<lparr>px := r_x pl + r_w pl\<rparr> else s)
         in s1\<lparr>vx := 0\<rparr>)
      else
        (if vy s > 0 then s\<lparr>py := r_y pl - ph s, vy := 0, on_ground := True\<rparr>
         else if vy s < 0 then s\<lparr>py := r_y pl + r_h pl, vy := 0\<rparr> else s))"

fun resolve_loop :: "string \<Rightarrow> rect list \<Rightarrow> 'g game \<Rightarrow> 'g game" where
  "resolve_loop axis [] s = s"
| "resolve_loop axis (pl # pls) s = resolve_loop axis pls (resolve_one axis pl s)"

definition resolve_collisions :: "string \<Rightarrow> 'g game \<Rightarrow> 'g game" where
  "resolve_collisions axis s = resolve_loop axis (platforms s @ map mover_rect (movers s)) s"

definition step_move :: "real \<Rightarrow> 'g game \<Rightarrow> 'g game" where
  "step_move dt s =
     (let s1 = s\<lparr>on_ground := False\<rparr>;
          s2 = s1\<lparr>px := px s1 + vx s1 * dt\<rparr>;
          s3 = resolve_collisions ''x'' s2;
          s4 = s3\<lparr>py := py s3 + vy s3 * dt\<rparr>
      in resolve_collisions ''y'' s4)"

fun carry_loop :: "real \<Rightarrow> real \<Rightarrow> real \<Rightarrow> mover list \<Rightarrow> real" where
  "carry_loop feet_y bx bw [] = 0"
| "carry_loop feet_y bx bw (m # ms) =
     (let on_top = (\<bar>feet_y - m_y m\<bar> \<le> 2);
          overlapping_x = (\<not> (bx + bw \<le> m_x m \<or> bx \<ge> m_x m + m_w m))
      in if on_top \<and> overlapping_x then m_vx m else carry_loop feet_y bx bw ms)"

definition carry_velocity_from_mover :: "'g game \<Rightarrow> real" where
  "carry_velocity_from_mover s = carry_loop (py s + ph s) (px s) (pw s) (movers s)"

definition step_carry :: "real \<Rightarrow> 'g game \<Rightarrow> 'g game" where
  "step_carry dt s =
     (let carry_vx = carry_velocity_from_mover s
      in if carry_vx \<noteq> 0 \<and> on_ground s then s\<lparr>px := px s + carry_vx * dt\<rparr> else s)"

fun spikes_loop :: "screen_reply \<Rightarrow> rect list \<Rightarrow> 'g game \<Rightarrow> exn + 'g game" where
  "spikes_loop ui [] s = Inr s"
| "spikes_loop ui (sp # sps) s =
     (if body_hits s sp then
        (case game_over ui ''Spikes got you'' s of
           Inl e \<Rightarrow> Inl e
         | Inr s1 \<Rightarrow> spikes_loop ui sps s1)
      else spikes_loop ui sps s)"

text \<open>
  The spring loop. The divisor \<open>max 0.2 (gravity / 1500)\<close> is at least \<open>0.2\<close>, so the
  \<^verbatim>\<open>try\<close> around the launch never reaches its handler.
\<close>

definition spring_launch :: "'g game \<Rightarrow> 'g game" where
  "spring_launch s =
     (let gravity_scale = gravity s / 1500
      in s\<lparr>vy := SPRING_BOOST * (1 / max 0.2 gravity_scale),
           msg := Some ''Spring launched!'', msg_timer := 1.5\<rparr>)"

fun springs_loop :: "rect list \<Rightarrow> 'g game \<Rightarrow> 'g game" where
  "springs_loop [] s = s"
| "springs_loop (sp # sps) s =
     springs_loop sps (if body_hits s sp \<and> vy s \<ge> 0 then spring_launch s else s)"

text \<open>How many iterations of the spring loop take the launch branch.\<close>

fun spring_launches :: "rect list \<Rightarrow> 'g game \<Rightarrow> nat" where
  "spring_launches [] s = 0"
| "spring_launches (sp # sps) s =
     (if body_hits s sp \<and> vy s \<ge> 0 then Suc (spring_launches sps (spring_launch s))
      else spring_launches sps s)"

text \<open>
  The coin loop: the first uncollected coin that touches the body is marked, and the loop
  breaks. \<open>None\<close>: no coin was touched.
\<close>

fun collect_loop :: "'g game \<Rightarrow> coin list \<Rightarrow> coin list option" where
  "collect_loop s [] = None"
| "collect_loop s (c # cs) =
     (if c_collected c then map_option ((#) c) (collect_loop s cs)
      else if circle_rect_overlap (c_x c) (c_y c) (c_r c) (px s) (py s) (pw s) (ph s)
           then Some (c\<lparr>c_collected := True\<rparr> # cs)
      else map_option ((#) c) (collect_loop s cs))"

definition step_coins :: "real \<Rightarrow> 'g game \<Rightarrow> 'g game" where
  "step_coins t_coin s =
     (case collect_loop s (coins s) of
        None \<Rightarrow> s
      | Some cs \<Rightarrow>
          save_coins_state
            (s\<lparr>coins := cs, buff_end_time := t_coin + BUFF_DURATION_SECONDS,
               score := score s + 150,
               msg := Some ''Coin collected! Score bonus active for 60s'', msg_timer := 3\<rparr>))"

definition step_fall :: "screen_reply \<Rightarrow> 'g game \<Rightarrow> exn + 'g game" where
  "step_fall ui s = (if py s > kill_y s then game_over ui ''Fell out of bounds'' s else Inr s)"

definition step_camera :: "real \<Rightarrow> 'g game \<Rightarrow> 'g game" where
  "step_camera dt s =
     (let tx = px s - w s * 0.4; ty = py s - h s * 0.6
      in s\<lparr>cam_x := cam_x s + (tx - cam_x s) * min 1 (8 * dt),
           cam_y := cam_y s + (ty - cam_y s) * min 1 (8 * dt)\<rparr>)"

definition step_sidescroller :: "screen_reply \<Rightarrow> real \<Rightarrow> 'g game \<Rightarrow> exn + 'g game" where
  "step_sidescroller ui dt s =
     (if sidescroller s then
        (let s1 = s\<lparr>cam_x := cam_x s + scroll_speed s * dt\<rparr>;
             target_cam_y = py s1 - h s1 * 0.6;
             s2 = s1\<lparr>cam_y := cam_y s1 + (target_cam_y - cam_y s1) * min 1 (6 * dt)\<rparr>
         in if left_wall_kill s2 \<and> px s2 < cam_x s2 then
              (let old_px = px s2;
                   s3 = s2\<lparr>px := cam_x s2\<rparr>
               in case (if list_ex (body_hits s3) (platforms s3 @ map mover_rect (movers s3))
                        then game_over ui ''You got crushed'' s3 else Inr s3) of
                    Inl e \<Rightarrow> Inl e
                  | Inr s4 \<Rightarrow> Inr (if px s4 > old_px \<and> vx s4 < 0 then s4\<lparr>vx := 0\<rparr> else s4))
            else Inr s2)
      else Inr s)"

definition bonus_mult :: "real \<Rightarrow> 'g game \<Rightarrow> real" where
  "bonus_mult now s = (if now < buff_end_time s then 2.0 else 1.0)"

definition step_score :: "real \<Rightarrow> 'g game \<Rightarrow> 'g game" where
  "step_score now s =
     (let computed_score = py_int (px s * 0.1 + time_alive s * 3);
          computed_score2 = py_int (real_of_int computed_score * bonus_mult now s)
      in s\<lparr>score := max (score s) computed_score2\<rparr>)"

definition step_chunk :: "'g rng_ops \<Rightarrow> assets \<Rightarrow> 'g game \<Rightarrow> 'g game" where
  "step_chunk R A s =
     (if cam_x s + w s * 1.5 > level_extent_x s then add_level_chunk R A s else s)"

definition step_msg_timer :: "real \<Rightarrow> 'g game \<Rightarrow> 'g game" where
  "step_msg_timer dt s =
     (if msg_timer s > 0 then
        (let s1 = s\<lparr>msg_timer := msg_timer s - dt\<rparr>
         in if msg_timer s1 \<le> 0 then s1\<lparr>msg := None, msg_timer := 0\<rparr> else s1)
      else s)"

text \<open>
  The state after the physics part of \<^verbatim>\<open>_update\<close>: velocity, jump, movers, the two
  axis-separated moves and the carry by a mover.
\<close>

definition physics :: "real \<Rightarrow> 'g game \<Rightarrow> 'g game" where
  "physics dt s = step_carry dt (step_move dt (step_movers dt (step_jump (step_velocity dt s))))"

text \<open>
  \<^verbatim>\<open>ImageWalkerMode._update(dt)\<close>, in two parts: \<open>move_and_interact\<close> runs from the
  first line to the side-scroller block; scoring, chunk extension and the message timer
  follow. \<open>ui\<close> is the player's reply to the game-over screen, should one come up;
  \<open>t_coin\<close> and \<open>now\<close> are the readings of \<^verbatim>\<open>time.time()\<close> at the coin pickup and at
  scoring. The result is \<open>Inl SystemExit\<close> when the window is closed on a game-over
  screen.
\<close>

definition move_and_interact ::
  "screen_reply \<Rightarrow> real \<Rightarrow> real \<Rightarrow> 'g game \<Rightarrow> exn + 'g game" where
  "move_and_interact ui dt t_coin s =
     (let s1 = physics dt s
      in case spikes_loop ui (spikes s1) s1 of
           Inl e \<Rightarrow> Inl e
         | Inr s2 \<Rightarrow>
             (let s3 = springs_loop (springs s2) s2;
                  s4 = step_coins t_coin s3
              in case step_fall ui s4 of
                   Inl e \<Rightarrow> Inl e
                 | Inr s5 \<Rightarrow> step_sidescroller ui dt (step_camera dt s5)))"

definition update ::
  "'g rng_ops \<Rightarrow> assets \<Rightarrow> screen_reply \<Rightarrow> real \<Rightarrow> real \<Rightarrow> real \<Rightarrow> 'g game \<Rightarrow> exn + 'g game" where
  "update R A ui dt t_coin now s =
     (case move_and_interact ui dt t_coin s of
        Inl e \<Rightarrow> Inl e
      | Inr s6 \<Rightarrow> Inr (step_msg_timer dt (step_chunk R A (step_score now s6))))"

subsection \<open>One frame: events, clock, update\<close>

datatype key = K_LEFT | K_a | K_RIGHT | K_d | K_SPACE | K_UP | K_ESCAPE | K_q | K_m | K_OTHER

datatype event = KEYDOWN key | KEYUP key | OTHER_EVENT

text \<open>
  \<^verbatim>\<open>export_gameplay\<close> writes a file, which is outside the model; \<open>ex\<close> is the base name
  of the file written, or \<open>None\<close> when nothing was written. What stays in the session is
  the message.
\<close>

definition export_gameplay :: "string option \<Rightarrow> 'g game \<Rightarrow> 'g game" where
  "export_gameplay ex s =
     (let m = (case ex of
                 Some name \<Rightarrow> ''Exported gameplay to:'' @ [CHR 0x0A] @ name
               | None \<Rightarrow> ''Failed to export gameplay'')
      in s\<lparr>msg := Some m, msg_timer := 3\<rparr>)"

text \<open>
  The event loop of \<^verbatim>\<open>tick\<close>. \<open>False\<close>: Escape was pressed and \<^verbatim>\<open>tick\<close> returns at
  once. The music key \<^verbatim>\<open>K_m\<close> changes the application only, not the session.
\<close>

fun handle_events :: "string option \<Rightarrow> event list \<Rightarrow> 'g game \<Rightarrow> bool \<times> 'g game" where
  "handle_events ex [] s = (True, s)"
| "handle_events ex (KEYDOWN k # evs) s =
     (if k = K_LEFT \<or> k = K_a then handle_events ex evs (s\<lparr>hold_left := True\<rparr>)
      else if k = K_RIGHT \<or> k = K_d then handle_events ex evs (s\<lparr>hold_right := True\<rparr>)
      else if k = K_SPACE \<or> k = K_UP then handle_events ex evs (s\<lparr>want_jump := True\<rparr>)
      else if k = K_ESCAPE then (False, stop (save_coins_state s))
      else if k = K_q then handle_events ex evs (export_gameplay ex s)
      else handle_events ex evs s)"
| "handle_events ex (KEYUP k # evs) s =
     (if k = K_LEFT \<or> k = K_a then handle_events ex evs (s\<lparr>hold_left := False\<rparr>)
      else if k = K_RIGHT \<or> k = K_d then handle_events ex evs (s\<lparr>hold_right := False\<rparr>)
      else if k = K_SPACE \<or> k = K_UP then handle_events ex evs (s\<lparr>want_jump := False\<rparr>)
      else handle_events ex evs s)"
| "handle_events ex (OTHER_EVENT # evs) s = handle_events ex evs s"

text \<open>
  \<^verbatim>\<open>tick(events, dt)\<close>: nothing when the mode is not running; otherwise the events, the
  clock, the update, and then the drawing, which changes no state.
\<close>

definition tick ::
  "'g rng_ops \<Rightarrow> assets \<Rightarrow> screen_reply \<Rightarrow> string option \<Rightarrow> real \<Rightarrow> real \<Rightarrow> real
     \<Rightarrow> event list \<Rightarrow> 'g game \<Rightarrow> exn + bool \<times> 'g game" where
  "tick R A ui ex dt t_coin now events s =
     (if \<not> running s then Inr (False, s)
      else case handle_events ex events s of
             (False, s1) \<Rightarrow> Inr (False, s1)
           | (True, s1) \<Rightarrow>
               (case update R A ui dt t_coin now (s1\<lparr>time_alive := time_alive s1 + dt\<rparr>) of
                  Inl e \<Rightarrow> Inl e
                | Inr s2 \<Rightarrow> Inr (True, s2)))"

subsection \<open>Seeded level play\<close>

record 'g level_play =
  lp_game :: "'g game"
  finish :: finish_rec

definition lplat_rect :: "lplat \<Rightarrow> rect" where
  "lplat_rect p = \<lparr>r_x = l_x p, r_y = l_y p, r_w = l_w p, r_h = l_h p\<rparr>"

text \<open>
  \<^verbatim>\<open>LevelPlayMode.__init__\<close> after the call of the base constructor, whose result is
  \<open>s0\<close>: the geometry is replaced by the level's, the body and the camera are placed.
\<close>

definition level_play_init :: "level \<Rightarrow> 'g game \<Rightarrow> 'g level_play" where
  "level_play_init level_data s0 =
     (let s1 = s0\<lparr>platforms := map lplat_rect (filter (\<lambda>p. \<not> l_spikes p) (lv_platforms level_data)),
                  movers := [],
                  spikes := map lplat_rect (filter l_spikes (lv_platforms level_data)),
                  orbs := [], springs := [],
                  level_extent_x := real_of_int (lv_width level_data),
                  ground_y := real_of_int (lv_ground_y level_data)\<rparr>;
          s2 = s1\<lparr>px := 100, py := ground_y s1 - ph s1 - 2, on_ground := True, vy := 0, vx := 0\<rparr>;
          s3 = s2\<lparr>cam_x := max 0 (px s2 - w s2 * 0.4), cam_y := max 0 (py s2 - h s2 * 0.6),
                  dead := False, time_alive := 0, score := 0\<rparr>
      in \<lparr>lp_game = s3, finish = lv_finish level_data\<rparr>)"

definition level_complete :: "screen_reply \<Rightarrow> 'g game \<Rightarrow> exn + 'g game" where
  "level_complete ui s = (case ui of Quit \<Rightarrow> Inl SystemExit | Dismiss \<Rightarrow> Inr (stop s))"

text \<open>
  \<^verbatim>\<open>LevelPlayMode._update(dt)\<close>: the inherited update, then the Finish test. \<open>ui2\<close> is
  the reply to the level-complete screen.
\<close>

definition lp_update ::
  "'g rng_ops \<Rightarrow> assets \<Rightarrow> screen_reply \<Rightarrow> screen_reply \<Rightarrow> real \<Rightarrow> real \<Rightarrow> real
     \<Rightarrow> 'g level_play \<Rightarrow> exn + 'g level_play" where
  "lp_update R A ui ui2 dt t_coin now L =
     (case update R A ui dt t_coin now (lp_game L) of
        Inl e \<Rightarrow> Inl e
      | Inr s1 \<Rightarrow>
          (let px1 = px s1; py1 = py s1; px2 = px1 + pw s1; py2 = py1 + ph s1;
               f = finish L;
               fx1 = f_x f; fy1 = f_y f;
               fx2 = fx1 + real_of_int (f_size f); fy2 = fy1 + real_of_int (f_size f)
           in if px1 < fx2 \<and> px2 > fx1 \<and> py1 < fy2 \<and> py2 > fy1 then
                (case level_complete ui2 s1 of
                   Inl e \<Rightarrow> Inl e
                 | Inr s2 \<Rightarrow> Inr (L\<lparr>lp_game := s2\<rparr>))
              else Inr (L\<lparr>lp_game := s1\<rparr>)))"

text \<open>The inherited \<^verbatim>\<open>tick\<close> of a level-play session.\<close>

definition lp_tick ::
  "'g rng_ops \<Rightarrow> assets \<Rightarrow> screen_reply \<Rightarrow> screen_reply \<Rightarrow> string option \<Rightarrow> real \<Rightarrow> real
     \<Rightarrow> real \<Rightarrow> event list \<Rightarrow> 'g level_play \<Rightarrow> exn + bool \<times> 'g level_play" where
  "lp_tick R A ui ui2 ex dt t_coin now events L =
     (if \<not> running (lp_game L) then Inr (False, L)
      else case handle_events ex events (lp_game L) of
             (False, s1) \<Rightarrow> Inr (False, L\<lparr>lp_game := s1\<rparr>)
           | (True, s1) \<Rightarrow>
               (case lp_update R A ui ui2 dt t_coin now
                       (L\<lparr>lp_game := s1\<lparr>time_alive := time_alive s1 + dt\<rparr>\<rparr>) of
                  Inl e \<Rightarrow> Inl e
                | Inr L2 \<Rightarrow> Inr (True, L2)))"

text \<open>A session whose clock \<^verbatim>\<open>tick\<close> has advanced, at the call of the update.\<close>

definition lp_clock :: "real \<Rightarrow> 'g level_play \<Rightarrow> 'g level_play" where
  "lp_clock dt L = L\<lparr>lp_game := (lp_game L)\<lparr>time_alive := time_alive (lp_game L) + dt\<rparr>\<rparr>"

text \<open>\<^verbatim>\<open>start()\<close>, as far as the session goes: the mode runs.\<close>

definition start :: "'g game \<Rightarrow> 'g game" where
  "start s = s\<lparr>running := True\<rparr>"

text \<open>
  The attributes as \<^verbatim>\<open>ImageWalkerMode.__init__\<close> sets them before it builds a level,
  for a screen of the given size: the physical constants, an idle body, empty geometry.
\<close>

definition mode_attributes ::
  "real \<Rightarrow> real \<Rightarrow> bool \<Rightarrow> coin list \<Rightarrow> real \<Rightarrow> int \<Rightarrow> 'g \<Rightarrow> 'g game" where
  "mode_attributes sw sh side cs buff counter g =
     \<lparr>w = sw, h = sh, gravity = 1500, move_accel = 2200, max_speed = 360, jump_speed = 580,
      friction_ground = 1800, friction_air = 200, kill_y = 1200,
      pw = 36, ph = 48, px = 100, py = - 50, vx = 0, vy = 0,
      on_ground = False, dead = False,
      platforms = [], movers = [], spikes = [], orbs = [], springs = [],
      hold_left = False, hold_right = False, want_jump = False,
      time_alive = 0, score = 0, cam_x = 0, cam_y = 0, level_extent_x = 0, ground_y = 400,
      sidescroller = side, scroll_speed = (if side then 140 else 0), left_wall_kill = side,
      coins = cs, buff_end_time = buff, msg = None, msg_timer = 0, running = False,
      COIN_ID_COUNTER = counter, rng = g, saved = None\<rparr>"

subsection \<open>Observables used to state the properties\<close>

text \<open>How many coins of a list are flagged collected.\<close>

definition collected_count :: "coin list \<Rightarrow> nat" where
  "collected_count cs = length (filter c_collected cs)"

text \<open>The distance between the centre of a coin and a point, and between two coins.\<close>

definition distance_to :: "coin \<Rightarrow> real \<Rightarrow> real \<Rightarrow> real" where
  "distance_to c x y = sqrt ((c_x c - x)\<^sup>2 + (c_y c - y)\<^sup>2)"

definition center_distance :: "coin \<Rightarrow> coin \<Rightarrow> real" where
  "center_distance a b = distance_to a (c_x b) (c_y b)"

text \<open>
  The coin spacing invariant: any two coins of the list that are both uncollected are at
  least 64 apart.
\<close>

fun coins_spaced :: "coin list \<Rightarrow> bool" where
  "coins_spaced [] = True"
| "coins_spaced (c # cs) =
     ((\<forall>d \<in> set cs. \<not> c_collected c \<and> \<not> c_collected d \<longrightarrow> center_distance c d \<ge> 64)
      \<and> coins_spaced cs)"

text \<open>
  The multiplier that the jump step applies, by the types of the orbs the body touches:
  high before normal before small, and 1 when no orb of these types is touched.
\<close>

definition touches_type :: "'g game \<Rightarrow> string \<Rightarrow> bool" where
  "touches_type s typ \<longleftrightarrow> (\<exists>ob \<in> set (orbs s). orb_touches s ob \<and> o_type ob = typ)"

definition orb_multiplier :: "'g game \<Rightarrow> real" where
  "orb_multiplier s =
     (if touches_type s ''high'' then 1.35
      else if touches_type s ''normal'' then 1.0
      else if touches_type s ''small'' then 0.6 else 1.0)"

text \<open>
  The platform that \<^verbatim>\<open>_add_level_chunk\<close> appends in state \<open>s\<close>: its width and height
  offset are the first and third draw from the global generator.
\<close>

definition chunk_platform :: "'g rng_ops \<Rightarrow> assets \<Rightarrow> 'g game \<Rightarrow> rect" where
  "chunk_platform R A s =
     (let (wd, g1) = randint R 180 320 (rng s);
          (gap, g2) = randint R 80 200 g1;
          (dy, g3) = randint R (-140) 140 g2;
          y = ground_y s + real_of_int dy;
          idx = (if lib_n A > 0 then Some (int (length (platforms s) mod lib_n A)) else None)
      in new_platform A (level_extent_x s) y (real_of_int wd) None idx)"

subsection \<open>Concrete sessions\<close>

text \<open>
  A session on a 1000 by 700 screen with the constants of the constructor: the body rests
  on the starting platform, the camera sits at its target, no image library is loaded.
  The states below vary it; each \<open>_after\<close> state is what one update makes of the state
  it is named after.
\<close>

definition no_photos :: assets where
  "no_photos = \<lparr>lib_n = 0, get_lib_photo = (\<lambda>i t. None)\<rparr>"

definition demo_state :: "nat game" where
  "demo_state = (mode_attributes 1000 700 False [] 0 1 1)
     \<lparr>platforms := [\<lparr>r_x = 0, r_y = 400, r_w = 300, r_h = 40\<rparr>],
      px := 100, py := 352, on_ground := True, cam_x := - 300, cam_y := - 68,
      level_extent_x := 2100, time_alive := 1, score := 13, running := True\<rparr>"

text \<open>The frontier 0.4 screen widths ahead of the view's right edge (700).\<close>

definition near_frontier_state :: "nat game" where
  "near_frontier_state = demo_state\<lparr>level_extent_x := 1100\<rparr>"

definition near_frontier_after :: "nat game" where
  "near_frontier_after = near_frontier_state
     \<lparr>vy := 0, platforms := [\<lparr>r_x = 0, r_y = 400, r_w = 300, r_h = 40\<rparr>,
                              \<lparr>r_x = 1100, r_y = 269, r_w = 181, r_h = 48\<rparr>],
      level_extent_x := 1389, rng := 18689\<rparr>"

text \<open>A buff carried over from an earlier session is active; the clock reads 1000.\<close>

definition buffed_state :: "nat game" where
  "buffed_state = demo_state\<lparr>px := 7, cam_x := - 393, score := 6, buff_end_time := 2000\<rparr>"

text \<open>An uncollected coin inside the body's rectangle.\<close>

definition coin_state :: "nat game" where
  "coin_state = demo_state
     \<lparr>coins := [\<lparr>c_id = 1, c_x = 118, c_y = 376, c_r = 10, c_collected = False\<rparr>],
      COIN_ID_COUNTER := 2\<rparr>"

definition coin_after :: "nat game" where
  "coin_after = coin_state
     \<lparr>coins := [\<lparr>c_id = 1, c_x = 118, c_y = 376, c_r = 10, c_collected = True\<rparr>],
      buff_end_time := 1700000060, score := 163,
      msg := Some ''Coin collected! Score bonus active for 60s'', msg_timer := 2.984,
      saved := Some ([\<lparr>c_id = 1, c_x = 118, c_y = 376, c_r = 10, c_collected = True\<rparr>],
                     1700000060)\<rparr>"

text \<open>
  A mover passes 40 above the platform the body stands on, lower than the body is tall,
  and the player jumps.
\<close>

definition head_bump_state :: "nat game" where
  "head_bump_state = demo_state
     \<lparr>movers := [\<lparr>m_x = 60, m_y = 340, m_w = 100, m_h = 20, m_vx = 120, m_home = 60,
                   m_range = 160\<rparr>],
      want_jump := True\<rparr>"

definition head_bump_after :: "nat game" where
  "head_bump_after = head_bump_state
     \<lparr>movers := [\<lparr>m_x = 61.92, m_y = 340, m_w = 100, m_h = 20, m_vx = 120, m_home = 60,
                   m_range = 160\<rparr>],
      py := 360, vy := 0, on_ground := False, want_jump := False, cam_y := - 66.976\<rparr>"

text \<open>The body has just moved down into the platform, at the start of the Y resolution.\<close>

definition landing_state :: "nat game" where
  "landing_state = demo_state\<lparr>py := 352.384, vy := 24, on_ground := False\<rparr>"

text \<open>The player jumps while the body touches a high orb.\<close>

definition orb_state :: "nat game" where
  "orb_state = demo_state
     \<lparr>want_jump := True, orbs := [\<lparr>o_x = 118, o_y = 340, o_r = 14, o_type = ''high''\<rparr>]\<rparr>"

definition orb_after :: "nat game" where
  "orb_after = orb_state
     \<lparr>py := 339.472, vy := - 783, on_ground := False, want_jump := False,
      cam_y := - 69.603584\<rparr>"

text \<open>The body rests on a spring.\<close>

definition spring_state :: "nat game" where
  "spring_state = demo_state\<lparr>springs := [\<lparr>r_x = 90, r_y = 388, r_w = 48, r_h = 12\<rparr>]\<rparr>"

definition spring_after :: "nat game" where
  "spring_after = spring_state
     \<lparr>vy := - 760, msg := Some ''Spring launched!'', msg_timer := 1.484\<rparr>"

text \<open>
  The level of seed 7 under the stand-in generator, and a level-play session of it on a
  screen 1920 wide, as the constructor and \<^verbatim>\<open>start()\<close> leave it; one uncollected coin
  comes with the loaded collectible state.
\<close>

definition seed_level :: level where
  "seed_level =
     \<lparr>lv_platforms =
        [\<lparr>l_x = 0, l_y = 400, l_w = 300, l_h = 40, l_spikes = False\<rparr>,
         \<lparr>l_x = 320, l_y = 296, l_w = 211, l_h = 48, l_spikes = False\<rparr>,
         \<lparr>l_x = 573, l_y = 326, l_w = 138, l_h = 48, l_spikes = False\<rparr>,
         \<lparr>l_x = 208452189 / 327685, l_y = 306, l_w = 73, l_h = 20, l_spikes = True\<rparr>,
         \<lparr>l_x = 797, l_y = 365, l_w = 133, l_h = 48, l_spikes = False\<rparr>,
         \<lparr>l_x = 988, l_y = 290, l_w = 246, l_h = 48, l_spikes = False\<rparr>,
         \<lparr>l_x = 1385, l_y = 375, l_w = 155, l_h = 48, l_spikes = False\<rparr>,
         \<lparr>l_x = 1622, l_y = 284, l_w = 288, l_h = 48, l_spikes = False\<rparr>,
         \<lparr>l_x = 2046, l_y = 328, l_w = 245, l_h = 48, l_spikes = False\<rparr>,
         \<lparr>l_x = 140225756 / 65537, l_y = 308, l_w = 62, l_h = 20, l_spikes = True\<rparr>],
      lv_finish = \<lparr>f_x = 2320, f_y = 320, f_size = 34\<rparr>,
      lv_width = 2400, lv_ground_y = 400, lv_seed = 7\<rparr>"

definition lp_start :: "nat level_play" where
  "lp_start =
     (let L = level_play_init seed_level
                (mode_attributes 1920 1080 False
                   [\<lparr>c_id = 1, c_x = 250, c_y = 320, c_r = 10, c_collected = False\<rparr>] 0 2 5)
      in L\<lparr>lp_game := start (lp_game L)\<rparr>)"

text \<open>The session after its first and after its second frame of 16 ms without input.\<close>

definition lp_second :: "nat level_play" where
  "lp_second = lp_start
     \<lparr>lp_game := (lp_game lp_start)
        \<lparr>py := 350.384, vy := 24, on_ground := False,
         platforms := platforms (lp_game lp_start) @ [\<lparr>r_x = 2400, r_y = 289, r_w = 185, r_h = 48\<rparr>],
         time_alive := 0.016, score := 10, cam_x := - 85.504, cam_y := - 38.094848,
         level_extent_x := 2751, rng := 56069\<rparr>\<rparr>"

definition lp_third :: "nat level_play" where
  "lp_third = lp_second
     \<lparr>lp_game := (lp_game lp_second)
        \<lparr>py := 351.152, vy := 48,
         time_alive := 0.032, cam_x := - 160.063488, cam_y := - 71.215251456\<rparr>\<rparr>"

(*DEFS_END*)

subsection \<open>The seeded generator returns, and depends on its arguments only\<close>

lemma gen_loop_returns:
  assumes R: "randint_in_range R"
  shows "\<exists>ps. gen_loop R width gy x rnd acc = Some ps"
proof (induction "nat (width - 200 - x)" arbitrary: x rnd acc rule: less_induct)
  case less
  show ?case
  proof (cases "x < width - 200")
    case False
    then show ?thesis by (subst gen_loop.simps) simp
  next
    case True
    obtain wd rnd1 where wd: "randint R 120 320 rnd = (wd, rnd1)" by (cases "randint R 120 320 rnd")
    obtain gap rnd2 where gap: "randint R 40 160 rnd1 = (gap, rnd2)"
      by (cases "randint R 40 160 rnd1")
    obtain dy rnd3 where dy: "randint R (-120) 120 rnd2 = (dy, rnd3)"
      by (cases "randint R (-120) 120 rnd2")
    obtain r rnd4 where r: "random R rnd3 = (r, rnd4)" by (cases "random R rnd3")
    from R have "120 \<le> fst (randint R 120 320 rnd)" "40 \<le> fst (randint R 40 160 rnd1)"
      unfolding randint_in_range_def by simp_all
    with wd gap have pos: "0 < wd + gap" by simp
    with True have smaller: "nat (width - 200 - (x + (wd + gap))) < nat (width - 200 - x)"
      by simp
    have step1: "\<exists>ps. gen_loop R width gy (x + (wd + gap)) g' acc' = Some ps" for g' acc'
      using less [OF smaller] .
    show ?thesis
      by (subst gen_loop.simps) (simp add: True wd gap dy r step1 Let_def split: prod.splits)
  qed
qed

text \<open>
  C1. For every seed, \<^verbatim>\<open>generate_level_by_index\<close> returns, and two calls with the same
  seed, width and ground level give the same level (the same platform list, spike-flagged
  entries included, and the same Finish), whatever the state of the process-global
  generator at either call; neither call changes that state.
\<close>

theorem generate_level_by_index_deterministic:
  assumes "randint_in_range R"
  shows "\<exists>lvl. generate_level_by_index R S width gy g1 = Some (lvl, g1)
              \<and> generate_level_by_index R S width gy g2 = Some (lvl, g2)"
proof -
  obtain ps where "gen_loop R width gy 320 (Random R (S + 12345))
      [\<lparr>l_x = 0, l_y = real_of_int gy, l_w = 300, l_h = 40, l_spikes = False\<rparr>] = Some ps"
    using gen_loop_returns [OF assms] by blast
  then show ?thesis
    by (simp add: generate_level_by_index_def)
qed

lemma lcg_ops_in_range: "randint_in_range lcg_ops"
proof -
  have "a + int (g mod nat (b - a + 1)) \<le> b" if "a \<le> b" for a b :: int and g :: nat
  proof -
    have "g mod nat (b - a + 1) < nat (b - a + 1)" using that by (intro mod_less_divisor) simp
    then show ?thesis by linarith
  qed
  then show ?thesis
    by (simp add: randint_in_range_def lcg_ops_def)
qed

theorem generate_level_by_index_deterministic_witness:
  "randint_in_range lcg_ops \<and>
   (\<exists>lvl. generate_level_by_index lcg_ops 7 2400 400 (1::nat) = Some (lvl, 1)
         \<and> generate_level_by_index lcg_ops 7 2400 400 (2::nat) = Some (lvl, 2))"
  using generate_level_by_index_deterministic [OF lcg_ops_in_range, of 7 2400 400 1 2]
    lcg_ops_in_range by simp

text \<open>The level of seed 7 and width 900 under the stand-in generator, spikes included.\<close>

lemma generate_level_by_index_example:
  "generate_level_by_index lcg_ops 7 900 400 (1::nat) =
   Some (\<lparr>lv_platforms =
      [\<lparr>l_x = 0, l_y = 400, l_w = 300, l_h = 40, l_spikes = False\<rparr>,
       \<lparr>l_x = 320, l_y = 296, l_w = 211, l_h = 48, l_spikes = False\<rparr>,
       \<lparr>l_x = 573, l_y = 326, l_w = 138, l_h = 48, l_spikes = False\<rparr>,
       \<lparr>l_x = 208452189 / 327685, l_y = 306, l_w = 73, l_h = 20, l_spikes = True\<rparr>],
      lv_finish = \<lparr>f_x = 820, f_y = 320, f_size = 34\<rparr>, lv_width = 900,
      lv_ground_y = 400, lv_seed = 7\<rparr>, 1)"
  by (simp add: generate_level_by_index_def gen_loop.simps lcg_ops_def lcg_next_def)

subsection \<open>Loading the collectible state never fails\<close>

lemma load_coins_try_Exception:
  "load_coins_try sf file = Inl e \<Longrightarrow> is_Exception e"
  by (auto simp: load_coins_try_def py_float_def is_Exception_def Let_def
           split: coin_file.splits json.splits sum.splits option.splits if_splits)

text \<open>
  A document that decodes but is no object, or whose timestamp does not convert to a float,
  falls back to the default as well.
\<close>

lemma load_coins_data_shape_fallback:
  "load_coins_data sf (Json JNull) = Inr default_coins_data"
  "load_coins_data sf (Json (JBool b)) = Inr default_coins_data"
  "load_coins_data sf (Json (JInt i)) = Inr default_coins_data"
  "load_coins_data sf (Json (JFloat r)) = Inr default_coins_data"
  "load_coins_data sf (Json (JStr s)) = Inr default_coins_data"
  "load_coins_data sf (Json (JArr xs)) = Inr default_coins_data"
  "py_float sf (dict_get kvs ''buff_end_time'' (JFloat 0)) = Inl e \<Longrightarrow>
     load_coins_data sf (Json (JObj kvs)) = Inr default_coins_data"
  by (auto simp: load_coins_data_def load_coins_try_def is_Exception_def py_float_def Let_def
           split: json.splits option.splits if_splits)

text \<open>
  C9. \<^verbatim>\<open>load_coins_data\<close> never raises: for every state of the save file it returns a
  value. For a missing file, a file that cannot be opened and a file that is not JSON the
  value is the empty default \<open>{coins: [], buff_end_time: 0.0}\<close>; for a JSON object that
  stores a coins list and a buff end timestamp it is exactly those two.
\<close>

theorem load_coins_data_never_raises:
  "(\<exists>d. load_coins_data sf file = Inr d)
   \<and> load_coins_data sf NoFile = Inr default_coins_data
   \<and> load_coins_data sf OpenFails = Inr default_coins_data
   \<and> load_coins_data sf NotJson = Inr default_coins_data
   \<and> (map_of (rev kvs) ''coins'' = Some (JArr cs)
        \<and> map_of (rev kvs) ''buff_end_time'' = Some (JFloat t)
      \<longrightarrow> load_coins_data sf (Json (JObj kvs)) = Inr \<lparr>cd_coins = JArr cs, cd_buff_end_time = t\<rparr>)"
proof -
  have total: "\<exists>d. load_coins_data sf file = Inr d"
  proof (cases "load_coins_try sf file")
    case (Inl e)
    then have "is_Exception e" by (rule load_coins_try_Exception)
    with Inl show ?thesis by (simp add: load_coins_data_def)
  next
    case (Inr r)
    then show ?thesis by (cases r) (simp_all add: load_coins_data_def)
  qed
  have missing: "load_coins_data sf NoFile = Inr default_coins_data"
    by (simp add: load_coins_data_def load_coins_try_def)
  have unreadable: "load_coins_data sf OpenFails = Inr default_coins_data"
    by (simp add: load_coins_data_def load_coins_try_def is_Exception_def)
  have corrupt: "load_coins_data sf NotJson = Inr default_coins_data"
    by (simp add: load_coins_data_def load_coins_try_def is_Exception_def)
  have stored: "load_coins_data sf (Json (JObj kvs)) = Inr \<lparr>cd_coins = JArr cs, cd_buff_end_time = t\<rparr>"
    if "map_of (rev kvs) ''coins'' = Some (JArr cs)"
      and "map_of (rev kvs) ''buff_end_time'' = Some (JFloat t)"
    using that by (simp add: load_coins_data_def load_coins_try_def dict_get_def py_float_def)
  from total missing unreadable corrupt stored show ?thesis by blast
qed

theorem load_coins_data_never_raises_witness:
  "map_of (rev [(''coins'', JArr [JObj [(''id'', JInt 1), (''x'', JFloat 250), (''y'', JFloat 320),
        (''r'', JFloat 10), (''collected'', JBool False)]]), (''buff_end_time'', JFloat 1700000060)])
     ''coins'' = Some (JArr [JObj [(''id'', JInt 1), (''x'', JFloat 250), (''y'', JFloat 320),
        (''r'', JFloat 10), (''collected'', JBool False)]])
   \<and> map_of (rev [(''coins'', JArr [JObj [(''id'', JInt 1), (''x'', JFloat 250), (''y'', JFloat 320),
        (''r'', JFloat 10), (''collected'', JBool False)]]), (''buff_end_time'', JFloat 1700000060)])
     ''buff_end_time'' = Some (JFloat 1700000060)
   \<and> load_coins_data (\<lambda>s. None) (Json (JObj
       [(''coins'', JArr [JObj [(''id'', JInt 1), (''x'', JFloat 250), (''y'', JFloat 320),
        (''r'', JFloat 10), (''collected'', JBool False)]]), (''buff_end_time'', JFloat 1700000060)]))
     = Inr \<lparr>cd_coins = JArr [JObj [(''id'', JInt 1), (''x'', JFloat 250), (''y'', JFloat 320),
        (''r'', JFloat 10), (''collected'', JBool False)]], cd_buff_end_time = 1700000060\<rparr>"
  using load_coins_data_never_raises [of "\<lambda>s. None" NoFile
      "[(''coins'', JArr [JObj [(''id'', JInt 1), (''x'', JFloat 250), (''y'', JFloat 320),
        (''r'', JFloat 10), (''collected'', JBool False)]]), (''buff_end_time'', JFloat 1700000060)]"
      "[JObj [(''id'', JInt 1), (''x'', JFloat 250), (''y'', JFloat 320),
        (''r'', JFloat 10), (''collected'', JBool False)]]" 1700000060]
  by simp

subsection \<open>What each step of the update may change\<close>

text \<open>
  Each lemma gives the state after a step as the state before it with some fields
  replaced; every other field is thereby unchanged.
\<close>

lemma game_over_changes:
  assumes "game_over ui r s = Inr s'"
  shows "\<exists>d sv rn. s' = s\<lparr>dead := d, saved := sv, running := rn\<rparr>"
proof -
  from assms have "s' = s\<lparr>dead := dead s', saved := saved s', running := running s'\<rparr>"
    by (auto simp: game_over_def stop_def save_coins_state_def Let_def
             split: if_splits screen_reply.splits)
  then show ?thesis by blast
qed

lemma spikes_loop_changes:
  "spikes_loop ui sps s = Inr s' \<Longrightarrow> \<exists>d sv rn. s' = s\<lparr>dead := d, saved := sv, running := rn\<rparr>"
proof (induction sps arbitrary: s)
  case Nil
  then have "s' = s\<lparr>dead := dead s, saved := saved s, running := running s\<rparr>" by simp
  then show ?case by blast
next
  case (Cons sp sps)
  show ?case
  proof (cases "body_hits s sp")
    case False
    with Cons show ?thesis by simp
  next
    case True
    with Cons.prems obtain s1 where g: "game_over ui ''Spikes got you'' s = Inr s1"
      and l: "spikes_loop ui sps s1 = Inr s'"
      by (auto split: sum.splits)
    from game_over_changes [OF g] obtain d sv rn where s1: "s1 = s\<lparr>dead := d, saved := sv, running := rn\<rparr>" by blast
    from Cons.IH [OF l] obtain d' sv' rn' where "s' = s1\<lparr>dead := d', saved := sv', running := rn'\<rparr>" by blast
    with s1 have "s' = s\<lparr>dead := d', saved := sv', running := rn'\<rparr>" by simp
    then show ?thesis by blast
  qed
qed

lemma resolve_one_changes:
  "\<exists>a b c d e. resolve_one axis pl s = s\<lparr>px := a, py := b, vx := c, vy := d, on_ground := e\<rparr>"
proof -
  have "resolve_one axis pl s = s\<lparr>px := px (resolve_one axis pl s), py := py (resolve_one axis pl s),
     vx := vx (resolve_one axis pl s), vy := vy (resolve_one axis pl s), on_ground := on_ground (resolve_one axis pl s)\<rparr>"
    by (simp add: resolve_one_def Let_def)
  then show ?thesis by blast
qed

lemma resolve_loop_changes:
  "\<exists>a b c d e. resolve_loop axis rects s = s\<lparr>px := a, py := b, vx := c, vy := d, on_ground := e\<rparr>"
proof (induction rects arbitrary: s)
  case Nil
  have "s = s\<lparr>px := px s, py := py s, vx := vx s, vy := vy s, on_ground := on_ground s\<rparr>" by simp
  then show ?case by (metis resolve_loop.simps(1))
next
  case (Cons pl pls)
  obtain a b c d e where 1: "resolve_one axis pl s = s\<lparr>px := a, py := b, vx := c, vy := d, on_ground := e\<rparr>"
    using resolve_one_changes by blast
  obtain a' b' c' d' e' where 2: "resolve_loop axis pls (resolve_one axis pl s)
      = (resolve_one axis pl s)\<lparr>px := a', py := b', vx := c', vy := d', on_ground := e'\<rparr>"
    using Cons by blast
  have "resolve_loop axis (pl # pls) s = s\<lparr>px := a', py := b', vx := c', vy := d', on_ground := e'\<rparr>"
    by (simp add: 2) (simp add: 1)
  then show ?case by blast
qed

lemma physics_changes:
  "\<exists>a b c d e m. physics dt s = s\<lparr>px := a, py := b, vx := c, vy := d, on_ground := e, movers := m, want_jump := False\<rparr>"
proof -
  define s0 where "s0 = step_movers dt (step_jump (step_velocity dt s))"
  have 0: "s0 = s\<lparr>vx := vx s0, vy := vy s0, movers := movers s0, want_jump := False\<rparr>"
    by (simp add: s0_def step_movers_def step_jump_def step_velocity_def Let_def)
  define s2 where "s2 = s0\<lparr>on_ground := False, px := px s0 + vx s0 * dt\<rparr>"
  obtain a b c d e where 3: "resolve_collisions ''x'' s2 = s2\<lparr>px := a, py := b, vx := c, vy := d, on_ground := e\<rparr>"
    unfolding resolve_collisions_def using resolve_loop_changes by blast
  define s4 where "s4 = (resolve_collisions ''x'' s2)\<lparr>py := py (resolve_collisions ''x'' s2) + vy (resolve_collisions ''x'' s2) * dt\<rparr>"
  obtain a' b' c' d' e' where 5: "resolve_collisions ''y'' s4 = s4\<lparr>px := a', py := b', vx := c', vy := d', on_ground := e'\<rparr>"
    unfolding resolve_collisions_def using resolve_loop_changes by blast
  have m: "step_move dt s0 = resolve_collisions ''y'' s4"
    by (simp add: step_move_def s4_def s2_def Let_def)
  have "step_move dt s0 = s\<lparr>px := a', py := b', vx := c', vy := d', on_ground := e', movers := movers s0, want_jump := False\<rparr>"
    unfolding m 5 unfolding s4_def 3 unfolding s2_def by (subst 0) simp
  then have "physics dt s = s\<lparr>px := px (physics dt s), py := b', vx := c', vy := d', on_ground := e', movers := movers s0, want_jump := False\<rparr>"
    by (simp add: physics_def s0_def step_carry_def Let_def)
  then show ?thesis by blast
qed



lemma springs_loop_changes:
  "\<exists>v m t. springs_loop sps s = s\<lparr>vy := v, msg := m, msg_timer := t\<rparr>"
proof (induction sps arbitrary: s)
  case Nil
  have "s = s\<lparr>vy := vy s, msg := msg s, msg_timer := msg_timer s\<rparr>" by simp
  then show ?case by (metis springs_loop.simps(1))
next
  case (Cons sp sps)
  define s1 where "s1 = (if body_hits s sp \<and> vy s \<ge> 0 then spring_launch s else s)"
  have 1: "s1 = s\<lparr>vy := vy s1, msg := msg s1, msg_timer := msg_timer s1\<rparr>"
    by (simp add: s1_def spring_launch_def Let_def)
  obtain v m t where 2: "springs_loop sps s1 = s1\<lparr>vy := v, msg := m, msg_timer := t\<rparr>"
    using Cons by blast
  have "springs_loop (sp # sps) s = s\<lparr>vy := v, msg := m, msg_timer := t\<rparr>"
    unfolding springs_loop.simps s1_def [symmetric] 2 by (subst 1) simp
  then show ?case by blast
qed

lemma collect_loop_count:
  "collect_loop s cs = Some cs' \<Longrightarrow> collected_count cs' = Suc (collected_count cs)"
  by (induction cs arbitrary: cs') (auto simp: collected_count_def split: if_splits)

lemma step_coins_cases:
  "(step_coins tc s = s \<and> collect_loop s (coins s) = None)
   \<or> (\<exists>cs sv. collect_loop s (coins s) = Some cs \<and>
         step_coins tc s = s\<lparr>coins := cs, buff_end_time := tc + 60, score := score s + 150,
            msg := Some ''Coin collected! Score bonus active for 60s'', msg_timer := 3, saved := sv\<rparr>)"
  by (cases "collect_loop s (coins s)")
     (auto simp: step_coins_def save_coins_state_def BUFF_DURATION_SECONDS_def)

lemma step_fall_changes:
  "step_fall ui s = Inr s' \<Longrightarrow> \<exists>d sv rn. s' = s\<lparr>dead := d, saved := sv, running := rn\<rparr>"
proof (cases "py s > kill_y s")
  case True
  assume "step_fall ui s = Inr s'"
  with True show ?thesis by (auto simp: step_fall_def dest: game_over_changes)
next
  case False
  assume "step_fall ui s = Inr s'"
  with False have "s' = s\<lparr>dead := dead s, saved := saved s, running := running s\<rparr>"
    by (simp add: step_fall_def)
  then show ?thesis by blast
qed

lemma step_sidescroller_changes:
  assumes "step_sidescroller ui dt s = Inr s'"
  shows "\<exists>a b c d e sv rn. s' = s\<lparr>cam_x := a, cam_y := b, px := c, vx := d, dead := e, saved := sv, running := rn\<rparr>"
proof -
  have "s' = s\<lparr>cam_x := cam_x s', cam_y := cam_y s', px := px s', vx := vx s', dead := dead s',
           saved := saved s', running := running s'\<rparr>"
  proof (cases "sidescroller s")
    case False
    with assms show ?thesis by (simp add: step_sidescroller_def)
  next
    case True
    define s2 where "s2 = s\<lparr>cam_x := cam_x s + scroll_speed s * dt,
       cam_y := cam_y s + (py s - h s * 0.6 - cam_y s) * min 1 (6 * dt)\<rparr>"
    show ?thesis
    proof (cases "left_wall_kill s2 \<and> px s2 < cam_x s2")
      case False
      with assms True show ?thesis by (auto simp: step_sidescroller_def s2_def Let_def)
    next
      case push: True
      define s3 where "s3 = s2\<lparr>px := cam_x s2\<rparr>"
      show ?thesis
      proof (cases "list_ex (body_hits s3) (platforms s3 @ map mover_rect (movers s3))")
        case False
        with assms True push show ?thesis
          by (auto simp: step_sidescroller_def s2_def s3_def Let_def split: if_splits)
      next
        case crush: True
        with assms True push obtain s4 where g: "game_over ui ''You got crushed'' s3 = Inr s4"
          and r: "s' = (if px s4 > px s2 \<and> vx s4 < 0 then s4\<lparr>vx := 0\<rparr> else s4)"
          by (auto simp: step_sidescroller_def s2_def s3_def Let_def split: sum.splits if_splits)
        from game_over_changes [OF g] obtain d sv rn
          where "s4 = s3\<lparr>dead := d, saved := sv, running := rn\<rparr>" by blast
        with r show ?thesis by (simp add: s3_def s2_def)
      qed
    qed
  qed
  then show ?thesis by blast
qed

lemma move_and_interact_chain:
  assumes "move_and_interact ui dt tc s = Inr s6"
  obtains s2 s5 where "spikes_loop ui (spikes (physics dt s)) (physics dt s) = Inr s2"
    and "step_fall ui (step_coins tc (springs_loop (springs s2) s2)) = Inr s5"
    and "step_sidescroller ui dt (step_camera dt s5) = Inr s6"
  using assms by (auto simp: move_and_interact_def Let_def split: sum.splits)


lemma step_coins_changes:
  "\<exists>cs bf sc ms t sv. step_coins tc s = s\<lparr>coins := cs, buff_end_time := bf, score := sc,
       msg := ms, msg_timer := t, saved := sv\<rparr>"
proof -
  have "step_coins tc s = s\<lparr>coins := coins (step_coins tc s),
      buff_end_time := buff_end_time (step_coins tc s), score := score (step_coins tc s),
      msg := msg (step_coins tc s), msg_timer := msg_timer (step_coins tc s),
      saved := saved (step_coins tc s)\<rparr>"
    using step_coins_cases [of tc s] by auto
  then show ?thesis by blast
qed

lemma move_and_interact_changes:
  assumes "move_and_interact ui dt tc s = Inr s6"
  shows "\<exists>a b c d e m dd sv rn ms t cs bf sc cx cy.
     s6 = s\<lparr>px := a, py := b, vx := c, vy := d, on_ground := e, movers := m, want_jump := False,
          dead := dd, saved := sv, running := rn, msg := ms, msg_timer := t, coins := cs,
          buff_end_time := bf, score := sc, cam_x := cx, cam_y := cy\<rparr>"
proof -
  define s1 where "s1 = physics dt s"
  from assms obtain s2 s5 where
    a: "spikes_loop ui (spikes s1) s1 = Inr s2"
    and b: "step_fall ui (step_coins tc (springs_loop (springs s2) s2)) = Inr s5"
    and c: "step_sidescroller ui dt (step_camera dt s5) = Inr s6"
    unfolding s1_def by (rule move_and_interact_chain)
  define s3 where "s3 = springs_loop (springs s2) s2"
  define s4 where "s4 = step_coins tc s3"
  obtain a1 b1 c1 d1 e1 m1 where 1: "s1 = s\<lparr>px := a1, py := b1, vx := c1, vy := d1,
      on_ground := e1, movers := m1, want_jump := False\<rparr>"
    unfolding s1_def using physics_changes by blast
  obtain dd2 sv2 rn2 where 2: "s2 = s1\<lparr>dead := dd2, saved := sv2, running := rn2\<rparr>"
    using spikes_loop_changes [OF a] by blast
  obtain v3 ms3 t3 where 3: "s3 = s2\<lparr>vy := v3, msg := ms3, msg_timer := t3\<rparr>"
    unfolding s3_def using springs_loop_changes by blast
  obtain cs4 bf4 sc4 ms4 t4 sv4 where 4: "s4 = s3\<lparr>coins := cs4, buff_end_time := bf4,
      score := sc4, msg := ms4, msg_timer := t4, saved := sv4\<rparr>"
    unfolding s4_def using step_coins_changes by blast
  obtain dd5 sv5 rn5 where 5: "s5 = s4\<lparr>dead := dd5, saved := sv5, running := rn5\<rparr>"
    using step_fall_changes [OF b [folded s3_def s4_def]] by blast
  obtain a6 b6 c6 d6 e6 sv6 rn6 where 6: "s6 = (step_camera dt s5)\<lparr>cam_x := a6, cam_y := b6,
      px := c6, vx := d6, dead := e6, saved := sv6, running := rn6\<rparr>"
    using step_sidescroller_changes [OF c] by blast
  have "s6 = s\<lparr>px := c6, py := b1, vx := d6, vy := v3, on_ground := e1, movers := m1,
          want_jump := False, dead := e6, saved := sv6, running := rn6,
          msg := ms4, msg_timer := t4, coins := cs4, buff_end_time := bf4,
          score := sc4, cam_x := a6, cam_y := b6\<rparr>"
    by (simp add: 6 step_camera_def 5 4 3 2 1)
  then show ?thesis by blast
qed

lemma move_and_interact_pickup:
  assumes "move_and_interact ui dt tc s = Inr s6"
  shows "(coins s6 = coins s \<and> score s6 = score s \<and> buff_end_time s6 = buff_end_time s)
       \<or> (collected_count (coins s6) = Suc (collected_count (coins s))
          \<and> score s6 = score s + 150 \<and> buff_end_time s6 = tc + 60)"
proof -
  define s1 where "s1 = physics dt s"
  from assms obtain s2 s5 where
    a: "spikes_loop ui (spikes s1) s1 = Inr s2"
    and b: "step_fall ui (step_coins tc (springs_loop (springs s2) s2)) = Inr s5"
    and c: "step_sidescroller ui dt (step_camera dt s5) = Inr s6"
    unfolding s1_def by (rule move_and_interact_chain)
  define s3 where "s3 = springs_loop (springs s2) s2"
  define s4 where "s4 = step_coins tc s3"
  obtain a1 b1 c1 d1 e1 m1 where 1: "s1 = s\<lparr>px := a1, py := b1, vx := c1, vy := d1,
      on_ground := e1, movers := m1, want_jump := False\<rparr>"
    unfolding s1_def using physics_changes by blast
  obtain dd2 sv2 rn2 where 2: "s2 = s1\<lparr>dead := dd2, saved := sv2, running := rn2\<rparr>"
    using spikes_loop_changes [OF a] by blast
  obtain v3 ms3 t3 where 3: "s3 = s2\<lparr>vy := v3, msg := ms3, msg_timer := t3\<rparr>"
    unfolding s3_def using springs_loop_changes by blast
  have before: "coins s3 = coins s" "score s3 = score s" "buff_end_time s3 = buff_end_time s"
    by (simp_all add: 3 2 1)
  obtain dd5 sv5 rn5 where 5: "s5 = s4\<lparr>dead := dd5, saved := sv5, running := rn5\<rparr>"
    using step_fall_changes [OF b [folded s3_def s4_def]] by blast
  obtain a6 b6 c6 d6 e6 sv6 rn6 where 6: "s6 = (step_camera dt s5)\<lparr>cam_x := a6, cam_y := b6,
      px := c6, vx := d6, dead := e6, saved := sv6, running := rn6\<rparr>"
    using step_sidescroller_changes [OF c] by blast
  have after: "coins s6 = coins s4" "score s6 = score s4" "buff_end_time s6 = buff_end_time s4"
    by (simp_all add: 6 step_camera_def 5)
  from step_coins_cases [of tc s3] show ?thesis
  proof
    assume "step_coins tc s3 = s3 \<and> collect_loop s3 (coins s3) = None"
    then have "s4 = s3" by (simp add: s4_def)
    with before after show ?thesis by simp
  next
    assume "\<exists>cs sv. collect_loop s3 (coins s3) = Some cs \<and>
         step_coins tc s3 = s3\<lparr>coins := cs, buff_end_time := tc + 60, score := score s3 + 150,
            msg := Some ''Coin collected! Score bonus active for 60s'', msg_timer := 3, saved := sv\<rparr>"
    then obtain cs sv where l: "collect_loop s3 (coins s3) = Some cs"
      and 4: "s4 = s3\<lparr>coins := cs, buff_end_time := tc + 60, score := score s3 + 150,
            msg := Some ''Coin collected! Score bonus active for 60s'', msg_timer := 3, saved := sv\<rparr>"
      unfolding s4_def by blast
    from collect_loop_count [OF l] before have "collected_count cs = Suc (collected_count (coins s))"
      by simp
    with 4 before after show ?thesis by simp
  qed
qed

lemma coin_too_close_append_count:
  "collected_count (cs @ [\<lparr>c_id = k, c_x = x, c_y = y, c_r = r, c_collected = False\<rparr>]) = collected_count cs"
  by (simp add: collected_count_def)

lemma add_platform_changes:
  "\<exists>pl. add_platform A x y wd ht idx s = s\<lparr>platforms := platforms s @ [pl]\<rparr>"
  by (auto simp: add_platform_def)

lemma chunk_orb_changes: "\<exists>os g. chunk_orb R wd y s = s\<lparr>orbs := os, rng := g\<rparr>"
proof -
  have "chunk_orb R wd y s = s\<lparr>orbs := orbs (chunk_orb R wd y s), rng := rng (chunk_orb R wd y s)\<rparr>"
    by (simp add: chunk_orb_def add_orb_def Let_def split: prod.splits)
  then show ?thesis by blast
qed

lemma chunk_mover_changes: "\<exists>ms g. chunk_mover R wd y s = s\<lparr>movers := ms, rng := g\<rparr>"
proof -
  have "chunk_mover R wd y s = s\<lparr>movers := movers (chunk_mover R wd y s), rng := rng (chunk_mover R wd y s)\<rparr>"
    by (simp add: chunk_mover_def add_mover_def Let_def split: prod.splits)
  then show ?thesis by blast
qed

lemma chunk_spikes_changes: "\<exists>sps g. chunk_spikes R wd y s = s\<lparr>spikes := sps, rng := g\<rparr>"
proof -
  have "chunk_spikes R wd y s = s\<lparr>spikes := spikes (chunk_spikes R wd y s), rng := rng (chunk_spikes R wd y s)\<rparr>"
    by (simp add: chunk_spikes_def add_spikes_def Let_def split: prod.splits)
  then show ?thesis by blast
qed

lemma chunk_coin_changes:
  "\<exists>cs k sv g. chunk_coin R wd y s = s\<lparr>coins := cs, COIN_ID_COUNTER := k, saved := sv, rng := g\<rparr>
     \<and> collected_count cs = collected_count (coins s)"
proof -
  have "chunk_coin R wd y s = s\<lparr>coins := coins (chunk_coin R wd y s),
      COIN_ID_COUNTER := COIN_ID_COUNTER (chunk_coin R wd y s),
      saved := saved (chunk_coin R wd y s), rng := rng (chunk_coin R wd y s)\<rparr>"
    by (simp add: chunk_coin_def generate_coin_def save_coins_state_def Let_def split: prod.splits)
  moreover have "collected_count (coins (chunk_coin R wd y s)) = collected_count (coins s)"
    by (simp add: chunk_coin_def generate_coin_def save_coins_state_def Let_def collected_count_def
             split: prod.splits)
  ultimately show ?thesis by blast
qed

lemma chunk_spring_changes: "\<exists>sgs g. chunk_spring R wd s = s\<lparr>springs := sgs, rng := g\<rparr>"
proof -
  have "chunk_spring R wd s = s\<lparr>springs := springs (chunk_spring R wd s), rng := rng (chunk_spring R wd s)\<rparr>"
    by (simp add: chunk_spring_def generate_spring_def Let_def split: prod.splits)
  then show ?thesis by blast
qed

lemma add_level_chunk_changes:
  "\<exists>pl os ms sps cs sgs g k sv e.
     add_level_chunk R A s = s\<lparr>platforms := platforms s @ [pl], orbs := os, movers := ms,
        spikes := sps, coins := cs, springs := sgs, rng := g, COIN_ID_COUNTER := k, saved := sv,
        level_extent_x := e\<rparr>
     \<and> collected_count cs = collected_count (coins s)"
proof -
  obtain wd g1 where wd: "randint R 180 320 (rng s) = (wd, g1)" by (cases "randint R 180 320 (rng s)")
  obtain gap g2 where gap: "randint R 80 200 g1 = (gap, g2)" by (cases "randint R 80 200 g1")
  obtain dy g3 where dy: "randint R (-140) 140 g2 = (dy, g3)" by (cases "randint R (-140) 140 g2")
  define y where "y = ground_y s + real_of_int dy"
  define idx where "idx = (if lib_n A > 0 then Some (int (length (platforms s) mod lib_n A)) else None)"
  define s1 where "s1 = add_platform A (level_extent_x s) y (real_of_int wd) None idx (s\<lparr>rng := g3\<rparr>)"
  define s2 where "s2 = chunk_orb R (real_of_int wd) y s1"
  define s3 where "s3 = chunk_mover R (real_of_int wd) y s2"
  define s4 where "s4 = chunk_spikes R (real_of_int wd) y s3"
  define s5 where "s5 = chunk_coin R (real_of_int wd) y s4"
  define s6 where "s6 = chunk_spring R (real_of_int wd) s5"
  have r: "add_level_chunk R A s = s6\<lparr>level_extent_x := level_extent_x s6 + real_of_int (wd + gap)\<rparr>"
    by (simp add: add_level_chunk_def wd gap dy Let_def s6_def s5_def s4_def s3_def s2_def s1_def
          y_def idx_def)
  obtain pl where 1: "s1 = (s\<lparr>rng := g3\<rparr>)\<lparr>platforms := platforms (s\<lparr>rng := g3\<rparr>) @ [pl]\<rparr>"
    unfolding s1_def using add_platform_changes by blast
  obtain os g4 where 2: "s2 = s1\<lparr>orbs := os, rng := g4\<rparr>"
    unfolding s2_def using chunk_orb_changes [of R "real_of_int wd" y s1] by blast
  obtain ms g5 where 3: "s3 = s2\<lparr>movers := ms, rng := g5\<rparr>"
    unfolding s3_def using chunk_mover_changes [of R "real_of_int wd" y s2] by blast
  obtain sps g6 where 4: "s4 = s3\<lparr>spikes := sps, rng := g6\<rparr>"
    unfolding s4_def using chunk_spikes_changes [of R "real_of_int wd" y s3] by blast
  obtain cs k sv g7 where 5: "s5 = s4\<lparr>coins := cs, COIN_ID_COUNTER := k, saved := sv, rng := g7\<rparr>"
    and cc: "collected_count cs = collected_count (coins s4)"
    unfolding s5_def using chunk_coin_changes [of R "real_of_int wd" y s4] by blast
  obtain sgs g8 where 6: "s6 = s5\<lparr>springs := sgs, rng := g8\<rparr>"
    unfolding s6_def using chunk_spring_changes [of R "real_of_int wd" s5] by blast
  have "coins s4 = coins s" by (simp add: 4 3 2 1)
  with cc have cc': "collected_count cs = collected_count (coins s)" by simp
  have "add_level_chunk R A s = s\<lparr>platforms := platforms s @ [pl], orbs := os, movers := ms,
        spikes := sps, coins := cs, springs := sgs, rng := g8, COIN_ID_COUNTER := k, saved := sv,
        level_extent_x := level_extent_x s + real_of_int (wd + gap)\<rparr>"
    unfolding r by (simp add: 6 5 4 3 2 1)
  with cc' show ?thesis by blast
qed

subsection \<open>Running the update on the concrete sessions\<close>

lemmas eval_defs = update_def move_and_interact_def physics_def mode_attributes_def
  step_velocity_def step_jump_def orb_touches_def circle_rect_overlap_def
  orbs_touching_player_def jump_mult_def step_movers_def advance_mover_def step_move_def
  resolve_collisions_def resolve_one_def body_hits_def intersect_def mover_rect_def
  step_carry_def carry_velocity_from_mover_def clamp_def Let_def
  spring_launch_def SPRING_BOOST_def
  step_coins_def BUFF_DURATION_SECONDS_def save_coins_state_def stop_def game_over_def
  step_fall_def step_camera_def step_sidescroller_def
  step_score_def bonus_mult_def py_int_def step_chunk_def step_msg_timer_def
  add_level_chunk_def add_platform_def new_platform_def chunk_orb_def chunk_mover_def chunk_spikes_def
  chunk_coin_def chunk_spring_def add_orb_def add_mover_def add_spikes_def generate_coin_def
  generate_spring_def COIN_CHUNK_SPAWN_PROB_def SPRING_CHUNK_SPAWN_PROB_def
  lcg_ops_def lcg_next_def no_photos_def demo_state_def

lemma demo_update:
  "update lcg_ops no_photos Dismiss 0.016 0 0 demo_state = Inr (demo_state\<lparr>vy := 0\<rparr>)"
  by (simp add: eval_defs)

lemma near_frontier_update:
  "update lcg_ops no_photos Dismiss 0.016 0 0 near_frontier_state = Inr near_frontier_after"
  by (simp add: eval_defs near_frontier_state_def near_frontier_after_def)

lemma buffed_update:
  "update lcg_ops no_photos Dismiss 0.016 0 1000 buffed_state = Inr (buffed_state\<lparr>vy := 0\<rparr>)"
  by (simp add: eval_defs buffed_state_def)

lemma coin_update:
  "update lcg_ops no_photos Dismiss 0.016 1700000000 1700000000 coin_state = Inr coin_after"
  by (simp add: eval_defs coin_state_def coin_after_def)

lemma head_bump_update:
  "update lcg_ops no_photos Dismiss 0.016 0 0 head_bump_state = Inr head_bump_after"
  by (simp add: eval_defs head_bump_state_def head_bump_after_def)

lemma spring_update:
  "update lcg_ops no_photos Dismiss 0.016 0 0 spring_state = Inr spring_after"
  by (simp add: eval_defs spring_state_def spring_after_def)

lemma orb_update:
  "update lcg_ops no_photos Dismiss 0.016 0 0 orb_state = Inr orb_after"
  by (simp add: eval_defs orb_state_def orb_after_def)

subsection \<open>The whole update: frontier, score and buff\<close>

lemma step_chunk_cases:
  "(\<not> cam_x s + w s * 1.5 > level_extent_x s \<and> step_chunk R A s = s)
   \<or> (cam_x s + w s * 1.5 > level_extent_x s \<and>
       (\<exists>pl os ms sps cs sgs g k sv e.
          step_chunk R A s = s\<lparr>platforms := platforms s @ [pl], orbs := os, movers := ms,
             spikes := sps, coins := cs, springs := sgs, rng := g, COIN_ID_COUNTER := k,
             saved := sv, level_extent_x := e\<rparr>
          \<and> collected_count cs = collected_count (coins s)))"
  using add_level_chunk_changes [of R A s] by (auto simp: step_chunk_def)

lemma step_msg_timer_changes: "\<exists>m t. step_msg_timer dt s = s\<lparr>msg := m, msg_timer := t\<rparr>"
proof -
  have "step_msg_timer dt s = s\<lparr>msg := msg (step_msg_timer dt s),
      msg_timer := msg_timer (step_msg_timer dt s)\<rparr>"
    by (simp add: step_msg_timer_def Let_def)
  then show ?thesis by blast
qed

lemma update_chain:
  assumes "update R A ui dt tc now s = Inr s'"
  obtains s6 where "move_and_interact ui dt tc s = Inr s6"
    and "s' = step_msg_timer dt (step_chunk R A (step_score now s6))"
  using assms by (auto simp: update_def split: sum.splits)

text \<open>The tail of the update, after \<open>move_and_interact\<close>.\<close>

lemma update_tail:
  assumes "s' = step_msg_timer dt (step_chunk R A (step_score now s6))"
  shows "px s' = px s6 \<and> vy s' = vy s6 \<and> time_alive s' = time_alive s6
       \<and> buff_end_time s' = buff_end_time s6 \<and> cam_x s' = cam_x s6 \<and> w s' = w s6
       \<and> want_jump s' = want_jump s6
       \<and> collected_count (coins s') = collected_count (coins s6)
       \<and> score s' = max (score s6)
            (py_int (real_of_int (py_int (px s6 * 0.1 + time_alive s6 * 3)) * bonus_mult now s6))
       \<and> (if level_extent_x s6 < cam_x s6 + w s6 * 1.5
           then \<exists>pl. platforms s' = platforms s6 @ [pl]
           else platforms s' = platforms s6 \<and> level_extent_x s' = level_extent_x s6)"
proof -
  define t1 where "t1 = step_score now s6"
  define t2 where "t2 = step_chunk R A t1"
  have 1: "t1 = s6\<lparr>score := max (score s6)
            (py_int (real_of_int (py_int (px s6 * 0.1 + time_alive s6 * 3)) * bonus_mult now s6))\<rparr>"
    by (simp add: t1_def step_score_def Let_def)
  obtain m t where 3: "s' = t2\<lparr>msg := m, msg_timer := t\<rparr>"
    unfolding assms t2_def t1_def using step_msg_timer_changes by blast
  from step_chunk_cases [of t1 R A] show ?thesis
  proof
    assume "\<not> cam_x t1 + w t1 * 1.5 > level_extent_x t1 \<and> step_chunk R A t1 = t1"
    then have c: "\<not> level_extent_x s6 < cam_x s6 + w s6 * 1.5" and 2: "t2 = t1"
      by (simp_all add: t2_def 1)
    show ?thesis using c by (simp add: 3 2 1)
  next
    assume "cam_x t1 + w t1 * 1.5 > level_extent_x t1 \<and>
       (\<exists>pl os ms sps cs sgs g k sv e.
          step_chunk R A t1 = t1\<lparr>platforms := platforms t1 @ [pl], orbs := os, movers := ms,
             spikes := sps, coins := cs, springs := sgs, rng := g, COIN_ID_COUNTER := k,
             saved := sv, level_extent_x := e\<rparr>
          \<and> collected_count cs = collected_count (coins t1))"
    then obtain pl os ms sps cs sgs g k sv e where
      c: "cam_x t1 + w t1 * 1.5 > level_extent_x t1"
      and 2: "t2 = t1\<lparr>platforms := platforms t1 @ [pl], orbs := os, movers := ms,
             spikes := sps, coins := cs, springs := sgs, rng := g, COIN_ID_COUNTER := k,
             saved := sv, level_extent_x := e\<rparr>"
      and cc: "collected_count cs = collected_count (coins t1)"
      unfolding t2_def by blast
    from c have c': "level_extent_x s6 < cam_x s6 + w s6 * 1.5" by (simp add: 1)
    from cc have cc': "collected_count cs = collected_count (coins s6)" by (simp add: 1)
    show ?thesis using c' cc' by (simp add: 3 2 1)
  qed
qed

lemma move_and_interact_kept:
  assumes "move_and_interact ui dt tc s = Inr s6"
  shows "platforms s6 = platforms s \<and> level_extent_x s6 = level_extent_x s \<and> w s6 = w s
       \<and> time_alive s6 = time_alive s \<and> \<not> want_jump s6"
proof -
  from move_and_interact_changes [OF assms] obtain a b c d e m dd sv rn ms t cs bf sc cx cy
    where "s6 = s\<lparr>px := a, py := b, vx := c, vy := d, on_ground := e, movers := m, want_jump := False,
          dead := dd, saved := sv, running := rn, msg := ms, msg_timer := t, coins := cs,
          buff_end_time := bf, score := sc, cam_x := cx, cam_y := cy\<rparr>" by blast
  then show ?thesis by simp
qed

text \<open>
  C2 as stated fails. The camera offset \<open>cam_x\<close> is the left edge of the view, so the
  view's right edge is \<open>cam_x + w\<close>. In the session below that edge is at 700 before and
  after the update, the frontier is at \<open>700 + 1.4 * w\<close>, and the update generates no
  chunk: the platform list and the frontier are unchanged.
\<close>

theorem chunk_generation_counterexample:
  "update lcg_ops no_photos Dismiss 0.016 0 0 demo_state = Inr (demo_state\<lparr>vy := 0\<rparr>)
   \<and> cam_x demo_state + w demo_state = 700
   \<and> cam_x (demo_state\<lparr>vy := 0\<rparr>) + w (demo_state\<lparr>vy := 0\<rparr>) = 700
   \<and> level_extent_x demo_state = 700 + 1.4 * w demo_state
   \<and> platforms (demo_state\<lparr>vy := 0\<rparr>) = platforms demo_state
   \<and> level_extent_x (demo_state\<lparr>vy := 0\<rparr>) = level_extent_x demo_state"
  using demo_update by (simp add: demo_state_def mode_attributes_def)

text \<open>
  C2, amended. An update that returns has generated a chunk (one platform appended to the
  platform list) exactly when the frontier it started with is less than 1.5 screen widths
  ahead of the camera offset \<open>cam_x\<close> as this update leaves it, that is, less than 0.5
  screen widths ahead of the view's right edge; otherwise platform list and frontier are
  unchanged.
\<close>

theorem chunk_generation_condition:
  assumes "update R A ui dt tc now s = Inr s'"
  shows "if level_extent_x s < cam_x s' + w s' * 1.5
         then \<exists>pl. platforms s' = platforms s @ [pl]
         else platforms s' = platforms s \<and> level_extent_x s' = level_extent_x s"
proof -
  from assms obtain s6 where m: "move_and_interact ui dt tc s = Inr s6"
    and t: "s' = step_msg_timer dt (step_chunk R A (step_score now s6))"
    by (rule update_chain)
  from move_and_interact_kept [OF m] update_tail [OF t] show ?thesis
    by (auto split: if_splits)
qed

theorem chunk_generation_condition_witness:
  "update lcg_ops no_photos Dismiss 0.016 0 0 near_frontier_state = Inr near_frontier_after
   \<and> level_extent_x near_frontier_state = 700 + 0.4 * w near_frontier_state
   \<and> cam_x near_frontier_after + w near_frontier_after = 700
   \<and> level_extent_x near_frontier_state < cam_x near_frontier_after + w near_frontier_after * 1.5
   \<and> platforms near_frontier_after =
       platforms near_frontier_state @ [\<lparr>r_x = 1100, r_y = 269, r_w = 181, r_h = 48\<rparr>]"
  using chunk_generation_condition [OF near_frontier_update] near_frontier_update
  by (simp add: near_frontier_state_def near_frontier_after_def demo_state_def mode_attributes_def)

text \<open>
  C3 as stated fails. With an active buff, a body at \<open>x = 7\<close> and one second of play,
  \<open>floor((x * 0.1 + t * 3) * 2) = floor(7.4) = 7\<close>, but the code truncates before it
  doubles, \<open>int(int(3.7) * 2.0) = 6\<close>, and the score stays at its previous value 6.
\<close>

theorem score_floor_counterexample:
  "update lcg_ops no_photos Dismiss 0.016 0 1000 buffed_state = Inr (buffed_state\<lparr>vy := 0\<rparr>)
   \<and> score (buffed_state\<lparr>vy := 0\<rparr>) = 6
   \<and> max (score buffed_state)
         \<lfloor>(px (buffed_state\<lparr>vy := 0\<rparr>) * 0.1 + time_alive (buffed_state\<lparr>vy := 0\<rparr>) * 3)
            * bonus_mult 1000 (buffed_state\<lparr>vy := 0\<rparr>)\<rfloor> = 7"
  using buffed_update
  by (simp add: buffed_state_def demo_state_def mode_attributes_def bonus_mult_def)

text \<open>
  C3, amended. At the end of every update that returns, the score is the maximum of the
  previous score, raised by 150 if a coin was collected in this update, and
  \<open>int(int(x * 0.1 + elapsedTime * 3) * buffMultiplier)\<close>, where \<open>int\<close> truncates toward
  zero, \<open>x\<close> is the body's final horizontal position and \<open>buffMultiplier\<close> is 2 while
  the clock reading at scoring is before the buff end and 1 otherwise.
\<close>

theorem score_after_update:
  assumes "update R A ui dt tc now s = Inr s'"
  shows "score s' =
     max (score s + (if collected_count (coins s') > collected_count (coins s) then 150 else 0))
         (py_int (real_of_int (py_int (px s' * 0.1 + time_alive s' * 3)) * bonus_mult now s'))"
proof -
  from assms obtain s6 where m: "move_and_interact ui dt tc s = Inr s6"
    and t: "s' = step_msg_timer dt (step_chunk R A (step_score now s6))"
    by (rule update_chain)
  have b: "bonus_mult now s' = bonus_mult now s6"
    using update_tail [OF t] by (simp add: bonus_mult_def)
  from move_and_interact_pickup [OF m] show ?thesis
  proof
    assume "coins s6 = coins s \<and> score s6 = score s \<and> buff_end_time s6 = buff_end_time s"
    with update_tail [OF t] b show ?thesis by simp
  next
    assume "collected_count (coins s6) = Suc (collected_count (coins s))
          \<and> score s6 = score s + 150 \<and> buff_end_time s6 = tc + 60"
    with update_tail [OF t] b show ?thesis by simp
  qed
qed

theorem score_after_update_witness:
  "update lcg_ops no_photos Dismiss 0.016 0 1000 buffed_state = Inr (buffed_state\<lparr>vy := 0\<rparr>)
   \<and> score (buffed_state\<lparr>vy := 0\<rparr>) =
       max (score buffed_state + 0) (py_int (real_of_int (py_int (7 * 0.1 + 1 * 3)) * 2))"
  using score_after_update [OF buffed_update] buffed_update
  by (simp add: buffed_state_def demo_state_def mode_attributes_def bonus_mult_def py_int_def)

text \<open>
  C6. An update in which a coin is collected, with the clock reading \<open>T\<close> at the pickup,
  leaves the buff end at exactly \<open>T + 60\<close>; from then on the score multiplier is 2 at
  every evaluation time in \<open>[T, T + 60)\<close> and 1 at every time from \<open>T + 60\<close> on.
\<close>

theorem coin_buff_timing:
  assumes "update R A ui dt T now s = Inr s'"
    and "collected_count (coins s') > collected_count (coins s)"
  shows "buff_end_time s' = T + 60
       \<and> (\<forall>t. T \<le> t \<and> t < T + 60 \<longrightarrow> bonus_mult t s' = 2)
       \<and> (\<forall>t. T + 60 \<le> t \<longrightarrow> bonus_mult t s' = 1)"
proof -
  from assms(1) obtain s6 where m: "move_and_interact ui dt T s = Inr s6"
    and t: "s' = step_msg_timer dt (step_chunk R A (step_score now s6))"
    by (rule update_chain)
  from move_and_interact_pickup [OF m] have "buff_end_time s6 = T + 60"
  proof
    assume "coins s6 = coins s \<and> score s6 = score s \<and> buff_end_time s6 = buff_end_time s"
    with update_tail [OF t] assms(2) show ?thesis by simp
  qed simp
  with update_tail [OF t] have "buff_end_time s' = T + 60" by simp
  then show ?thesis by (simp add: bonus_mult_def)
qed

theorem coin_buff_timing_witness:
  "update lcg_ops no_photos Dismiss 0.016 1700000000 1700000000 coin_state = Inr coin_after
   \<and> collected_count (coins coin_after) > collected_count (coins coin_state)
   \<and> buff_end_time coin_after = 1700000000 + 60
   \<and> bonus_mult 1700000000 coin_after = 2
   \<and> bonus_mult 1700000059.9 coin_after = 2
   \<and> bonus_mult 1700000060 coin_after = 1"
proof -
  have c: "collected_count (coins coin_after) > collected_count (coins coin_state)"
    by (simp add: coin_after_def coin_state_def collected_count_def)
  from coin_buff_timing [OF coin_update c] coin_update c show ?thesis by simp
qed

subsection \<open>Y-axis resolution\<close>

lemma resolve_one_y_miss: "\<not> body_hits s pl \<Longrightarrow> resolve_one ''y'' pl s = s"
  by (simp add: resolve_one_def)

lemma resolve_one_y_still: "vy s = 0 \<Longrightarrow> resolve_one ''y'' pl s = s"
  by (simp add: resolve_one_def)

lemma resolve_loop_y_still: "vy s = 0 \<Longrightarrow> resolve_loop ''y'' rects s = s"
  by (induction rects) (simp_all add: resolve_one_y_still)

lemma resolve_one_y_hit:
  assumes "body_hits s pl" "vy s \<noteq> 0"
  shows "vy (resolve_one ''y'' pl s) = 0 \<and> \<not> body_hits (resolve_one ''y'' pl s) pl"
  using assms by (auto simp: resolve_one_def body_hits_def intersect_def)

lemma resolve_loop_y_first_hit:
  assumes "vy s \<noteq> 0"
  shows "case find (body_hits s) rects of
           None \<Rightarrow> resolve_loop ''y'' rects s = s
         | Some pl \<Rightarrow> vy (resolve_loop ''y'' rects s) = 0
                      \<and> \<not> body_hits (resolve_loop ''y'' rects s) pl"
proof (induction rects)
  case Nil
  show ?case by simp
next
  case (Cons pl pls)
  show ?case
  proof (cases "body_hits s pl")
    case True
    with assms have "vy (resolve_one ''y'' pl s) = 0" "\<not> body_hits (resolve_one ''y'' pl s) pl"
      using resolve_one_y_hit by blast+
    with True show ?thesis by (simp add: resolve_loop_y_still)
  next
    case False
    with Cons show ?thesis by (simp add: resolve_one_y_miss split: option.splits)
  qed
qed

text \<open>
  C4 as stated fails. The body stands on a platform under a mover that hangs 40 above it
  and jumps. The Y resolution finds the mover overhead and moves the body down to the
  mover's bottom edge, 360; the platform, earlier in \<^verbatim>\<open>platforms + movers\<close>, is not
  looked at again. The body, still alive, ends the Y resolution and the update with its
  feet at 408, 8 deep in the platform whose top is at 400.
\<close>

theorem y_resolution_overlap_counterexample:
  "update lcg_ops no_photos Dismiss 0.016 0 0 head_bump_state = Inr head_bump_after
   \<and> \<not> dead head_bump_state \<and> \<not> dead head_bump_after
   \<and> platforms head_bump_after = [\<lparr>r_x = 0, r_y = 400, r_w = 300, r_h = 40\<rparr>]
   \<and> step_move 0.016 (step_movers 0.016 (step_jump (step_velocity 0.016 head_bump_state)))
       = head_bump_after\<lparr>cam_y := - 68\<rparr>
   \<and> body_hits (head_bump_after\<lparr>cam_y := - 68\<rparr>) \<lparr>r_x = 0, r_y = 400, r_w = 300, r_h = 40\<rparr>
   \<and> body_hits head_bump_after \<lparr>r_x = 0, r_y = 400, r_w = 300, r_h = 40\<rparr>
   \<and> py head_bump_after + ph head_bump_after = 408"
proof -
  have "step_move 0.016 (step_movers 0.016 (step_jump (step_velocity 0.016 head_bump_state)))
       = head_bump_after\<lparr>cam_y := - 68\<rparr>"
    by (simp add: eval_defs head_bump_state_def head_bump_after_def)
  with head_bump_update show ?thesis
    by (simp add: head_bump_after_def head_bump_state_def demo_state_def mode_attributes_def
          body_hits_def intersect_def)
qed

text \<open>
  C4, amended. When the body's vertical velocity is not zero at the start of the Y-axis
  resolution, then after it the body has no positive-area overlap with the first rectangle
  of \<^verbatim>\<open>platforms + movers\<close> that it overlapped at the start (it has been moved to that
  rectangle's edge and its vertical velocity is zero), and if it overlapped none, the
  resolution changes nothing. Overlap with any other rectangle is neither excluded nor
  resolved.
\<close>

theorem y_resolution_first_hit:
  assumes "vy s \<noteq> 0"
  shows "case find (body_hits s) (platforms s @ map mover_rect (movers s)) of
           None \<Rightarrow> resolve_collisions ''y'' s = s
         | Some pl \<Rightarrow> vy (resolve_collisions ''y'' s) = 0
                      \<and> \<not> body_hits (resolve_collisions ''y'' s) pl"
  unfolding resolve_collisions_def using assms by (rule resolve_loop_y_first_hit)

theorem y_resolution_first_hit_witness:
  "vy landing_state \<noteq> 0
   \<and> find (body_hits landing_state) (platforms landing_state @ map mover_rect (movers landing_state))
       = Some \<lparr>r_x = 0, r_y = 400, r_w = 300, r_h = 40\<rparr>
   \<and> vy (resolve_collisions ''y'' landing_state) = 0
   \<and> \<not> body_hits (resolve_collisions ''y'' landing_state) \<lparr>r_x = 0, r_y = 400, r_w = 300, r_h = 40\<rparr>"
proof -
  have v: "vy landing_state \<noteq> 0"
    by (simp add: landing_state_def)
  have f: "find (body_hits landing_state) (platforms landing_state @ map mover_rect (movers landing_state))
       = Some \<lparr>r_x = 0, r_y = 400, r_w = 300, r_h = 40\<rparr>"
    by (simp add: landing_state_def demo_state_def mode_attributes_def body_hits_def intersect_def)
  from y_resolution_first_hit [OF v] v f show ?thesis by simp
qed

subsection \<open>Coin spacing\<close>

lemma sqrt_ge_64_iff: "64 \<le> sqrt z \<longleftrightarrow> 64 * 64 \<le> z"
proof -
  have "sqrt (64 * 64) = (64::real)" by simp
  then have "64 \<le> sqrt z \<longleftrightarrow> sqrt (64 * 64) \<le> sqrt z" by simp
  also have "\<dots> \<longleftrightarrow> 64 * 64 \<le> z" by (rule real_sqrt_le_iff)
  finally show ?thesis .
qed

lemma distance_to_ge_64_iff:
  "distance_to c x y \<ge> 64 \<longleftrightarrow>
     (c_x c - x) * (c_x c - x) + (c_y c - y) * (c_y c - y) \<ge> 64 * 64"
  by (simp add: distance_to_def sqrt_ge_64_iff power2_eq_square)

lemma coin_too_close_iff:
  "coin_too_close x y cs \<longleftrightarrow> (\<exists>c \<in> set cs. \<not> c_collected c \<and> \<not> distance_to c x y \<ge> 64)"
  by (induction cs) (auto simp: distance_to_ge_64_iff Let_def)

lemma center_distance_commute: "center_distance a b = center_distance b a"
  by (simp add: center_distance_def distance_to_def power2_commute)

lemma coins_spaced_append:
  "coins_spaced (cs @ [c]) \<longleftrightarrow>
     coins_spaced cs \<and> (\<forall>d \<in> set cs. \<not> c_collected d \<and> \<not> c_collected c \<longrightarrow> center_distance d c \<ge> 64)"
  by (induction cs) auto

text \<open>
  C5. When any two uncollected coins are at least 64 apart (centre distance), they still
  are after \<^verbatim>\<open>_generate_coin(x, y)\<close>: a coin at \<open>(x, y)\<close> is appended, uncollected, if
  every uncollected coin is at distance at least 64 from \<open>(x, y)\<close>, and otherwise nothing
  is created and the state is unchanged.
\<close>

theorem generate_coin_keeps_spacing:
  assumes "coins_spaced (coins s)"
  shows "coins_spaced (coins (snd (generate_coin x y s)))
       \<and> (if \<forall>c \<in> set (coins s). \<not> c_collected c \<longrightarrow> distance_to c x y \<ge> 64
          then \<exists>c. fst (generate_coin x y s) = Some c \<and> c_x c = x \<and> c_y c = y
                 \<and> \<not> c_collected c \<and> coins (snd (generate_coin x y s)) = coins s @ [c]
          else fst (generate_coin x y s) = None \<and> snd (generate_coin x y s) = s)"
proof (cases "coin_too_close x y (coins s)")
  case True
  then have "\<not> (\<forall>c \<in> set (coins s). \<not> c_collected c \<longrightarrow> distance_to c x y \<ge> 64)"
    by (auto simp: coin_too_close_iff)
  with True assms show ?thesis by (simp add: generate_coin_def)
next
  case False
  then have far: "\<forall>c \<in> set (coins s). \<not> c_collected c \<longrightarrow> distance_to c x y \<ge> 64"
    by (auto simp: coin_too_close_iff)
  define c where "c = \<lparr>c_id = COIN_ID_COUNTER s, c_x = x, c_y = y, c_r = 10, c_collected = False\<rparr>"
  have g: "generate_coin x y s =
      (Some c, save_coins_state (s\<lparr>COIN_ID_COUNTER := COIN_ID_COUNTER s + 1, coins := coins s @ [c]\<rparr>))"
    using False by (simp add: generate_coin_def Let_def c_def)
  have "coins_spaced (coins s @ [c])"
    using assms far by (simp add: coins_spaced_append center_distance_def c_def)
  with g far show ?thesis by (simp add: save_coins_state_def c_def)
qed

theorem generate_coin_keeps_spacing_witness:
  "coins_spaced (coins coin_state)
   \<and> coins_spaced (coins (snd (generate_coin 300 376 coin_state)))
   \<and> coins (snd (generate_coin 300 376 coin_state)) =
       [\<lparr>c_id = 1, c_x = 118, c_y = 376, c_r = 10, c_collected = False\<rparr>,
        \<lparr>c_id = 2, c_x = 300, c_y = 376, c_r = 10, c_collected = False\<rparr>]
   \<and> fst (generate_coin 150 376 coin_state) = None
   \<and> snd (generate_coin 150 376 coin_state) = coin_state"
proof -
  have h: "coins_spaced (coins coin_state)" by (simp add: coin_state_def)
  have far: "\<forall>c \<in> set (coins coin_state). \<not> c_collected c \<longrightarrow> distance_to c 300 376 \<ge> 64"
    by (simp add: coin_state_def distance_to_ge_64_iff)
  have near: "\<not> (\<forall>c \<in> set (coins coin_state). \<not> c_collected c \<longrightarrow> distance_to c 150 376 \<ge> 64)"
    by (simp add: coin_state_def distance_to_ge_64_iff)
  have k: "COIN_ID_COUNTER coin_state = 2" "coins coin_state =
      [\<lparr>c_id = 1, c_x = 118, c_y = 376, c_r = 10, c_collected = False\<rparr>]"
    by (simp_all add: coin_state_def)
  from generate_coin_keeps_spacing [OF h, of 300 376] far
  have 1: "coins_spaced (coins (snd (generate_coin 300 376 coin_state)))" by simp
  have 2: "coins (snd (generate_coin 300 376 coin_state)) =
       [\<lparr>c_id = 1, c_x = 118, c_y = 376, c_r = 10, c_collected = False\<rparr>,
        \<lparr>c_id = 2, c_x = 300, c_y = 376, c_r = 10, c_collected = False\<rparr>]"
    by (simp add: generate_coin_def Let_def k save_coins_state_def)
  from generate_coin_keeps_spacing [OF h, of 150 376] near
  have 3: "fst (generate_coin 150 376 coin_state) = None \<and> snd (generate_coin 150 376 coin_state) = coin_state"
    by simp
  from h 1 2 3 show ?thesis by simp
qed

subsection \<open>The jump step\<close>

lemma touched_type_iff: "typ \<in> orbs_touching_player s \<longleftrightarrow> touches_type s typ"
  by (auto simp: orbs_touching_player_def touches_type_def)

lemma touching_any_iff:
  "orbs_touching_player s \<noteq> {} \<longleftrightarrow> (\<exists>ob \<in> set (orbs s). orb_touches s ob)"
  by (auto simp: orbs_touching_player_def filter_empty_conv)

lemma jump_mult_orb_multiplier: "jump_mult (orbs_touching_player s) = orb_multiplier s"
  by (auto simp: jump_mult_def orb_multiplier_def touched_type_iff Let_def)

lemma step_velocity_orbs:
  "orbs_touching_player (step_velocity dt s) = orbs_touching_player s"
  by (simp add: orbs_touching_player_def orb_touches_def step_velocity_def Let_def)

lemma update_want_jump:
  assumes "update R A ui dt tc now s = Inr s'"
  shows "\<not> want_jump s'"
proof -
  from assms obtain s6 where m: "move_and_interact ui dt tc s = Inr s6"
    and t: "s' = step_msg_timer dt (step_chunk R A (step_score now s6))"
    by (rule update_chain)
  from move_and_interact_kept [OF m] update_tail [OF t] show ?thesis by simp
qed

text \<open>
  C7. The jump step of an update (it follows gravity) clears the jump request in every
  case, and the request is still cleared when the update returns. If a jump was requested
  and the body is on the ground or touches an orb, the step sets the vertical velocity to
  \<open>- jump_speed * m\<close>, where \<open>m\<close> is 1.35 if a high orb is touched, else 1.0 if a normal
  orb is touched, else 0.6 if a small orb is touched, else 1.0.
\<close>

theorem jump_impulse:
  "\<not> want_jump (step_jump (step_velocity dt s))
   \<and> (want_jump s \<and> (on_ground s \<or> (\<exists>ob \<in> set (orbs s). orb_touches s ob))
        \<longrightarrow> vy (step_jump (step_velocity dt s)) = - jump_speed s * orb_multiplier s)
   \<and> (update R A ui dt tc now s = Inr s' \<longrightarrow> \<not> want_jump s')"
proof -
  have 1: "\<not> want_jump (step_jump (step_velocity dt s))"
    by (simp add: step_jump_def Let_def)
  have 2: "vy (step_jump (step_velocity dt s)) = - jump_speed s * orb_multiplier s"
    if "want_jump s" and "on_ground s \<or> (\<exists>ob \<in> set (orbs s). orb_touches s ob)"
  proof -
    have "jump_mult (orbs_touching_player (step_velocity dt s)) = orb_multiplier s"
      by (simp add: step_velocity_orbs jump_mult_orb_multiplier)
    moreover have "want_jump (step_velocity dt s)" "jump_speed (step_velocity dt s) = jump_speed s"
      using that(1) by (simp_all add: step_velocity_def Let_def)
    moreover have "on_ground (step_velocity dt s) \<or> orbs_touching_player (step_velocity dt s) \<noteq> {}"
      using that(2) by (simp add: step_velocity_orbs touching_any_iff) (simp add: step_velocity_def Let_def)
    ultimately show ?thesis by (simp add: step_jump_def Let_def)
  qed
  from 1 2 update_want_jump show ?thesis by blast
qed

theorem jump_impulse_witness:
  "want_jump orb_state \<and> on_ground orb_state
   \<and> (\<exists>ob \<in> set (orbs orb_state). orb_touches orb_state ob)
   \<and> orb_multiplier orb_state = 1.35
   \<and> vy (step_jump (step_velocity 0.016 orb_state)) = - 783
   \<and> update lcg_ops no_photos Dismiss 0.016 0 0 orb_state = Inr orb_after
   \<and> \<not> want_jump orb_after"
proof -
  have a: "want_jump orb_state" "on_ground orb_state" "jump_speed orb_state = 580"
    by (simp_all add: orb_state_def demo_state_def mode_attributes_def)
  have b: "\<exists>ob \<in> set (orbs orb_state). orb_touches orb_state ob"
    by (simp add: orb_state_def demo_state_def mode_attributes_def orb_touches_def
          circle_rect_overlap_def Let_def)
  have c: "orb_multiplier orb_state = 1.35"
    by (simp add: orb_multiplier_def touches_type_def orb_state_def demo_state_def
          mode_attributes_def orb_touches_def circle_rect_overlap_def Let_def)
  from jump_impulse [where dt = "0.016" and s = orb_state and R = lcg_ops and A = no_photos
      and ui = Dismiss and tc = 0 and now = 0 and s' = orb_after] a b c orb_update
  show ?thesis by simp
qed

subsection \<open>The spring loop\<close>

lemma spring_launch_negative: "vy (spring_launch s) < 0"
proof -
  have "0 < max (0.2::real) (gravity s / 1500)" by simp
  then have "0 < 1 / max (0.2::real) (gravity s / 1500)" by simp
  then show ?thesis
    by (simp add: spring_launch_def SPRING_BOOST_def Let_def del: max_less_iff_conj)
qed

lemma spring_launch_body_hits: "body_hits (spring_launch s) sp = body_hits s sp"
  by (simp add: spring_launch_def body_hits_def Let_def)

lemma springs_loop_rising:
  "vy s < 0 \<Longrightarrow> springs_loop sps s = s \<and> spring_launches sps s = 0"
  by (induction sps) simp_all

lemma springs_loop_launch:
  "spring_launches sps s \<le> 1
   \<and> ((\<exists>sp \<in> set sps. body_hits s sp) \<and> vy s \<ge> 0 \<longrightarrow>
        springs_loop sps s = spring_launch s \<and> spring_launches sps s = 1)"
proof (induction sps)
  case Nil
  show ?case by simp
next
  case (Cons sp sps)
  show ?case
  proof (cases "body_hits s sp \<and> vy s \<ge> 0")
    case True
    with springs_loop_rising [OF spring_launch_negative, of sps s] show ?thesis by simp
  next
    case False
    with Cons show ?thesis by auto
  qed
qed

lemma springs_loop_vy_cong:
  assumes "px a = px b" "py a = py b" "pw a = pw b" "ph a = ph b" "vy a = vy b"
    "gravity a = gravity b"
  shows "vy (springs_loop sps a) = vy (springs_loop sps b)"
  using assms
proof (induction sps arbitrary: a b)
  case Nil
  then show ?case by simp
next
  case (Cons sp sps)
  have h: "body_hits a sp = body_hits b sp"
    using Cons.prems by (simp add: body_hits_def)
  show ?case
  proof (cases "body_hits a sp \<and> vy a \<ge> 0")
    case True
    with h Cons.prems have "springs_loop (sp # sps) a = springs_loop sps (spring_launch a)"
      "springs_loop (sp # sps) b = springs_loop sps (spring_launch b)" by simp_all
    moreover have "vy (springs_loop sps (spring_launch a)) = vy (springs_loop sps (spring_launch b))"
      by (rule Cons.IH) (simp_all add: spring_launch_def Let_def Cons.prems)
    ultimately show ?thesis by simp
  next
    case False
    with h Cons.prems have "springs_loop (sp # sps) a = springs_loop sps a"
      "springs_loop (sp # sps) b = springs_loop sps b" by auto
    with Cons.IH [OF Cons.prems] show ?thesis by simp
  qed
qed

lemma move_and_interact_vy:
  assumes "move_and_interact ui dt tc s = Inr s6"
  shows "vy s6 = vy (springs_loop (springs s) (physics dt s))"
proof -
  define s1 where "s1 = physics dt s"
  from assms obtain s2 s5 where
    a: "spikes_loop ui (spikes s1) s1 = Inr s2"
    and b: "step_fall ui (step_coins tc (springs_loop (springs s2) s2)) = Inr s5"
    and c: "step_sidescroller ui dt (step_camera dt s5) = Inr s6"
    unfolding s1_def by (rule move_and_interact_chain)
  define s3 where "s3 = springs_loop (springs s2) s2"
  define s4 where "s4 = step_coins tc s3"
  obtain a1 b1 c1 d1 e1 m1 where 1: "s1 = s\<lparr>px := a1, py := b1, vx := c1, vy := d1,
      on_ground := e1, movers := m1, want_jump := False\<rparr>"
    unfolding s1_def using physics_changes by blast
  obtain dd2 sv2 rn2 where 2: "s2 = s1\<lparr>dead := dd2, saved := sv2, running := rn2\<rparr>"
    using spikes_loop_changes [OF a] by blast
  have sp: "springs s2 = springs s" by (simp add: 2 1)
  have 3: "vy s3 = vy (springs_loop (springs s) s1)"
    unfolding s3_def sp by (rule springs_loop_vy_cong) (simp_all add: 2)
  obtain cs4 bf4 sc4 ms4 t4 sv4 where 4: "s4 = s3\<lparr>coins := cs4, buff_end_time := bf4,
      score := sc4, msg := ms4, msg_timer := t4, saved := sv4\<rparr>"
    unfolding s4_def using step_coins_changes by blast
  obtain dd5 sv5 rn5 where 5: "s5 = s4\<lparr>dead := dd5, saved := sv5, running := rn5\<rparr>"
    using step_fall_changes [OF b [folded s3_def s4_def]] by blast
  obtain a6 b6 c6 d6 e6 sv6 rn6 where 6: "s6 = (step_camera dt s5)\<lparr>cam_x := a6, cam_y := b6,
      px := c6, vx := d6, dead := e6, saved := sv6, running := rn6\<rparr>"
    using step_sidescroller_changes [OF c] by blast
  have "vy s6 = vy s3" by (simp add: 6 step_camera_def 5 4)
  with 3 show ?thesis by (simp add: s1_def)
qed

lemma physics_kept: "springs (physics dt s) = springs s \<and> gravity (physics dt s) = gravity s"
proof -
  obtain a1 b1 c1 d1 e1 m1 where "physics dt s = s\<lparr>px := a1, py := b1, vx := c1, vy := d1,
      on_ground := e1, movers := m1, want_jump := False\<rparr>"
    using physics_changes by blast
  then show ?thesis by simp
qed

text \<open>
  C8. In the spring loop of an update at most one launch fires. If the body overlaps a
  spring rectangle there while its vertical velocity is not negative, the loop leaves the
  vertical velocity at \<open>SPRING_BOOST * (1 / max(0.2, gravity / 1500))\<close>, which is
  negative, and \<open>- 760\<close> under the default gravity 1500; the jump request plays no part
  in it. Nothing later in the update changes the vertical velocity, so the update returns
  with that value.
\<close>

theorem spring_launch_impulse:
  fixes s s0 s' :: "'g game"
  shows "spring_launches (springs s) s \<le> 1
   \<and> ((\<exists>sp \<in> set (springs s). body_hits s sp) \<and> vy s \<ge> 0 \<longrightarrow>
        vy (springs_loop (springs s) s) = SPRING_BOOST * (1 / max 0.2 (gravity s / 1500))
        \<and> vy (springs_loop (springs s) s) < 0
        \<and> spring_launches (springs s) s = 1
        \<and> (gravity s = 1500 \<longrightarrow> vy (springs_loop (springs s) s) = - 760))
   \<and> vy (springs_loop (springs s) (s\<lparr>want_jump := j\<rparr>)) = vy (springs_loop (springs s) s)
   \<and> (update R A ui dt tc now s0 = Inr s'
        \<and> (\<exists>sp \<in> set (springs s0). body_hits (physics dt s0) sp) \<and> vy (physics dt s0) \<ge> 0
      \<longrightarrow> vy s' = SPRING_BOOST * (1 / max 0.2 (gravity s0 / 1500)))"
proof -
  have launch: "vy (spring_launch s) = SPRING_BOOST * (1 / max 0.2 (gravity s / 1500))" for s :: "'g game"
    by (simp add: spring_launch_def Let_def)
  have d: "vy (spring_launch s) = - 760" if "gravity s = 1500"
    using that by (simp add: spring_launch_def SPRING_BOOST_def Let_def)
  have 1: "spring_launches (springs s) s \<le> 1"
    using springs_loop_launch by blast
  have 2: "vy (springs_loop (springs s) s) = SPRING_BOOST * (1 / max 0.2 (gravity s / 1500))
        \<and> vy (springs_loop (springs s) s) < 0
        \<and> spring_launches (springs s) s = 1
        \<and> (gravity s = 1500 \<longrightarrow> vy (springs_loop (springs s) s) = - 760)"
    if "(\<exists>sp \<in> set (springs s). body_hits s sp) \<and> vy s \<ge> 0"
  proof -
    from that springs_loop_launch [of "springs s" s]
    have "springs_loop (springs s) s = spring_launch s" "spring_launches (springs s) s = 1"
      by blast+
    with launch [of s] spring_launch_negative [of s] d show ?thesis by simp
  qed
  have 3: "vy (springs_loop (springs s) (s\<lparr>want_jump := j\<rparr>)) = vy (springs_loop (springs s) s)"
    by (rule springs_loop_vy_cong) simp_all
  have 4: "vy s' = SPRING_BOOST * (1 / max 0.2 (gravity s0 / 1500))"
    if u: "update R A ui dt tc now s0 = Inr s'"
      and h: "\<exists>sp \<in> set (springs s0). body_hits (physics dt s0) sp" and v: "vy (physics dt s0) \<ge> 0"
  proof -
    from u obtain s6 where m: "move_and_interact ui dt tc s0 = Inr s6"
      and t: "s' = step_msg_timer dt (step_chunk R A (step_score now s6))"
      by (rule update_chain)
    from h v physics_kept [of dt s0] springs_loop_launch [of "springs s0" "physics dt s0"]
    have "springs_loop (springs s0) (physics dt s0) = spring_launch (physics dt s0)" by simp
    with move_and_interact_vy [OF m] launch [of "physics dt s0"] physics_kept [of dt s0]
    have "vy s6 = SPRING_BOOST * (1 / max 0.2 (gravity s0 / 1500))" by simp
    with update_tail [OF t] show ?thesis by simp
  qed
  from 1 2 3 4 show ?thesis by blast
qed

theorem spring_launch_impulse_witness:
  "(\<exists>sp \<in> set (springs spring_state). body_hits (physics 0.016 spring_state) sp)
   \<and> vy (physics 0.016 spring_state) \<ge> 0
   \<and> update lcg_ops no_photos Dismiss 0.016 0 0 spring_state = Inr spring_after
   \<and> vy spring_after = - 760
   \<and> (\<exists>sp \<in> set (springs spring_state). body_hits spring_state sp) \<and> vy spring_state \<ge> 0
   \<and> vy (springs_loop (springs spring_state) spring_state) = - 760
   \<and> spring_launches (springs spring_state) spring_state = 1"
proof -
  have p: "physics 0.016 spring_state = spring_state"
    by (simp add: eval_defs spring_state_def)
  have a: "\<exists>sp \<in> set (springs spring_state). body_hits spring_state sp"
    by (simp add: spring_state_def demo_state_def mode_attributes_def body_hits_def intersect_def)
  have b: "vy spring_state \<ge> 0" "gravity spring_state = 1500"
    by (simp_all add: spring_state_def demo_state_def mode_attributes_def)
  from spring_launch_impulse [where s = spring_state and j = False and R = lcg_ops
      and A = no_photos and ui = Dismiss and dt = "0.016" and tc = 0 and now = 0
      and ?s0.0 = spring_state and s' = spring_after]
    p a b spring_update
  show ?thesis by (simp add: SPRING_BOOST_def)
qed

end
